theory Spec2Isabelle
  imports Complex_Main "HOL-Library.AList"
begin

section \<open>The grid world and its elements\<close>

text \<open>
  The repository moves elements over a two-dimensional grid. The classes \<open>Grid\<close>,
  \<open>Element\<close> and \<open>ElementController\<close> are imported by the sources
  (\<open>app.models.grid\<close>, \<open>app.controllers.element_controller\<close>) but their files are not
  part of the source tree, so their data and operations are modelled from sections 3 and
  4.1 of the specification. Everything in \<open>minimax.py\<close>, \<open>expectimax.py\<close> and
  \<open>simulation.py\<close> is translated from the code.

  The Python objects are shared and mutated in place. The model keeps them in one
  record: the cell array of the grid, the keys of the dictionary \<open>controller.elements\<close>
  in insertion order, and a store that maps each key to the element object it refers to.
  A Python reference to an element is its key; \<open>element.x\<close> reads the store at the time
  of the access.
\<close>

type_synonym pos = "int \<times> int"

datatype cell = Empty | Wall | Occupied nat

datatype topology = VonNeumann | Moore

datatype error = KeyError | NameError | TypeError

record element =
  el_id :: nat
  el_x :: int
  el_y :: int
  target_x :: "int option"
  target_y :: "int option"

record world =
  width :: int
  height :: int
  cells :: "pos \<Rightarrow> cell"
  ids :: "nat list"
  objs :: "nat \<Rightarrow> element"

text \<open>Modelled from the spec: \<open>Element.has_target\<close>, both target coordinates are set.\<close>

definition has_target :: "element \<Rightarrow> bool" where
  "has_target e = (target_x e \<noteq> None \<and> target_y e \<noteq> None)"

text \<open>The test \<open>e.x == e.target_x and e.y == e.target_y\<close>; an integer never equals \<open>None\<close>.\<close>

definition at_target :: "element \<Rightarrow> bool" where
  "at_target e = (Some (el_x e) = target_x e \<and> Some (el_y e) = target_y e)"



text \<open>\<open>controller.elements.values()\<close>: the element objects in dictionary order.\<close>

definition elements_values :: "world \<Rightarrow> element list" where
  "elements_values w = map (objs w) (ids w)"

section \<open>simulation.py: success metrics of the independent mode\<close>

text \<open>
  The last statements of \<open>_transform_independent\<close> (lines 941 to 958), which compute
  \<open>success_rate\<close> and \<open>success\<close> from the elements as the loop left them. Python divides
  two integers into a float; the model divides in the rationals, which agrees with the
  float comparison against 0.95 for every count below \<open>2^50\<close>.
\<close>

definition total_with_targets :: "world \<Rightarrow> nat" where
  "total_with_targets w = length (filter has_target (elements_values w))"

definition elements_at_target :: "world \<Rightarrow> nat" where
  "elements_at_target w =
     length (filter (\<lambda>e. has_target e \<and> at_target e) (elements_values w))"

definition success_rate :: "world \<Rightarrow> rat" where
  "success_rate w =
     (if total_with_targets w > 0
      then of_nat (elements_at_target w) / of_nat (total_with_targets w)
      else 0)"

definition success :: "world \<Rightarrow> bool" where
  "success w = (success_rate w > 95 / 100)"

section \<open>simulation.py: target swapping for blocked elements\<close>










section \<open>Grid operations\<close>

text \<open>
  Modelled from the spec: the operations of \<open>Grid\<close> (section 4.1). A position is valid
  when it lies inside the grid; a cell is a wall, holds an element, or is empty;
  \<open>remove_element\<close> empties the cell of the element, \<open>add_element\<close> writes the element's
  id into the cell at its stored position, and \<open>move_element\<close> fails without any change
  when the destination is out of bounds, a wall or occupied, and otherwise updates the
  cell array and the stored position together.
\<close>

definition is_valid_position :: "world \<Rightarrow> int \<Rightarrow> int \<Rightarrow> bool" where
  "is_valid_position w x y = (0 \<le> x \<and> x < width w \<and> 0 \<le> y \<and> y < height w)"

definition is_wall :: "world \<Rightarrow> int \<Rightarrow> int \<Rightarrow> bool" where
  "is_wall w x y = (cells w (x, y) = Wall)"

definition is_element :: "world \<Rightarrow> int \<Rightarrow> int \<Rightarrow> bool" where
  "is_element w x y = (case cells w (x, y) of Occupied _ \<Rightarrow> True | _ \<Rightarrow> False)"

definition remove_element :: "world \<Rightarrow> nat \<Rightarrow> world" where
  "remove_element w r =
     w\<lparr>cells := (cells w)((el_x (objs w r), el_y (objs w r)) := Empty)\<rparr>"

definition add_element :: "world \<Rightarrow> nat \<Rightarrow> world" where
  "add_element w r =
     w\<lparr>cells := (cells w)((el_x (objs w r), el_y (objs w r)) := Occupied (el_id (objs w r)))\<rparr>"

text \<open>The assignment \<open>element.x, element.y = nx, ny\<close> on the shared element object.\<close>

definition set_xy :: "world \<Rightarrow> nat \<Rightarrow> int \<Rightarrow> int \<Rightarrow> world" where
  "set_xy w r nx ny = w\<lparr>objs := (objs w)(r := (objs w r)\<lparr>el_x := nx, el_y := ny\<rparr>)\<rparr>"

definition move_element :: "world \<Rightarrow> nat \<Rightarrow> int \<Rightarrow> int \<Rightarrow> bool \<times> world" where
  "move_element w r x y =
     (if \<not> is_valid_position w x y \<or> is_wall w x y \<or> is_element w x y then (False, w)
      else (True, add_element (set_xy (remove_element w r) r x y) r))"

section \<open>simulation.py: committing one round of parallel moves\<close>

text \<open>
  A move of the log, the dictionary \<open>{"agentId": .., "from": .., "to": ..}\<close>.
\<close>

record move =
  agentId :: nat
  from_pos :: pos
  to_pos :: pos

text \<open>
  The commit loop of one round of \<open>_transform_centralized\<close> (lines 221 to 233), run on
  the sorted list \<open>planned_moves\<close> with the set \<open>positions_taken\<close>. The move record is
  built after \<open>move_element\<close> returned, so its \<open>from\<close> field reads the element's
  position after the move, as the code does.
\<close>

fun commit_planned_moves ::
  "(nat \<times> pos) list \<Rightarrow> pos set \<Rightarrow> move list \<Rightarrow> world \<Rightarrow> pos set \<times> move list \<times> world" where
  "commit_planned_moves [] positions_taken total_moves w = (positions_taken, total_moves, w)"
| "commit_planned_moves ((element, pos) # rest) positions_taken total_moves w =
     (if pos \<in> positions_taken then commit_planned_moves rest positions_taken total_moves w
      else
        (case move_element w element (fst pos) (snd pos) of
           (True, w') \<Rightarrow>
             commit_planned_moves rest (insert pos positions_taken)
               (total_moves @ [\<lparr>agentId = el_id (objs w' element),
                                from_pos = (el_x (objs w' element), el_y (objs w' element)),
                                to_pos = pos\<rparr>]) w'
         | (False, w') \<Rightarrow> commit_planned_moves rest positions_taken total_moves w'))"

text \<open>
  The reservation loop of \<open>_transform_independent\<close> (lines 883 to 893) on
  \<open>moves_this_round\<close>, and the loop that executes the reserved moves (lines 896 to 917).
  The counters \<open>total_nodes_explored\<close> and the set \<open>blocked_elements\<close>, which the second
  loop also updates, do not influence the moves and are left out.
\<close>

fun reserve_moves ::
  "world \<Rightarrow> (nat \<times> pos) list \<Rightarrow> (pos \<rightharpoonup> nat) \<Rightarrow> (nat \<times> pos) list
     \<Rightarrow> (pos \<rightharpoonup> nat) \<times> (nat \<times> pos) list" where
  "reserve_moves w [] reservations valid_moves_this_round =
     (reservations, valid_moves_this_round)"
| "reserve_moves w ((element, next_pos) # rest) reservations valid_moves_this_round =
     (if reservations next_pos = None
      then reserve_moves w rest (reservations(next_pos \<mapsto> el_id (objs w element)))
             (valid_moves_this_round @ [(element, next_pos)])
      else reserve_moves w rest reservations valid_moves_this_round)"

fun execute_reserved_moves ::
  "(nat \<times> pos) list \<Rightarrow> move list \<Rightarrow> nat \<Rightarrow> world \<Rightarrow> move list \<times> nat \<times> world" where
  "execute_reserved_moves [] total_moves executed_move_count w =
     (total_moves, executed_move_count, w)"
| "execute_reserved_moves ((element, next_pos) # rest) total_moves executed_move_count w =
     (let old_pos = (el_x (objs w element), el_y (objs w element)) in
      case move_element w element (fst next_pos) (snd next_pos) of
        (True, w') \<Rightarrow>
          execute_reserved_moves rest
            (total_moves @ [\<lparr>agentId = el_id (objs w' element), from_pos = old_pos,
                             to_pos = next_pos\<rparr>])
            (executed_move_count + 1) w'
      | (False, w') \<Rightarrow> execute_reserved_moves rest total_moves executed_move_count w')"

definition independent_round ::
  "(nat \<times> pos) list \<Rightarrow> move list \<Rightarrow> world \<Rightarrow> move list \<times> nat \<times> world" where
  "independent_round moves_this_round total_moves w =
     execute_reserved_moves (snd (reserve_moves w moves_this_round Map.empty []))
       total_moves 0 w"

text \<open>
  Modelled from the spec: \<open>Grid.get_neighbors\<close> returns the cells of the 4-neighbourhood
  (von Neumann) or of the 8-neighbourhood (Moore) that lie inside the grid. The order of
  the directions is not fixed by the specification; the model lists the cardinal
  directions in the order in which \<open>minimax.py\<close> itself writes them (up, left, right,
  down), followed by the diagonals.
\<close>

definition neighbor_offsets :: "topology \<Rightarrow> pos list" where
  "neighbor_offsets topology =
     (case topology of
        VonNeumann \<Rightarrow> [(0, -1), (-1, 0), (1, 0), (0, 1)]
      | Moore \<Rightarrow> [(0, -1), (-1, 0), (1, 0), (0, 1), (-1, -1), (1, -1), (-1, 1), (1, 1)])"

definition get_neighbors :: "world \<Rightarrow> int \<Rightarrow> int \<Rightarrow> topology \<Rightarrow> pos list" where
  "get_neighbors w x y topology =
     filter (\<lambda>(nx, ny). is_valid_position w nx ny)
       (map (\<lambda>(dx, dy). (x + dx, y + dy)) (neighbor_offsets topology))"

text \<open>The filter \<open>not grid.is_wall(nx, ny) and not grid.is_element(nx, ny)\<close>.\<close>

definition free_cell :: "world \<Rightarrow> pos \<Rightarrow> bool" where
  "free_cell w p = (\<not> is_wall w (fst p) (snd p) \<and> \<not> is_element w (fst p) (snd p))"

text \<open>
  The idiom by which both searches simulate a move of an element:
  \<open>grid.remove_element(e); e.x, e.y = nx, ny; grid.add_element(e)\<close>.
\<close>

definition simulate_move :: "world \<Rightarrow> nat \<Rightarrow> int \<Rightarrow> int \<Rightarrow> world" where
  "simulate_move w r nx ny = add_element (set_xy (remove_element w r) r nx ny) r"

section \<open>Python numbers and ranges\<close>

text \<open>
  The searches start from \<open>float('-inf')\<close> and \<open>float('inf')\<close> and compare them with
  finite scores. \<open>ext_max a b\<close> and \<open>ext_min a b\<close> are Python's \<open>max(a, b)\<close> and
  \<open>min(a, b)\<close>; \<open>ext_add a k\<close> adds a finite number.
\<close>

datatype 'a ext = NegInf | Fin 'a | PosInf

fun ext_le :: "('a::linorder) ext \<Rightarrow> 'a ext \<Rightarrow> bool" where
  "ext_le NegInf _ = True"
| "ext_le (Fin a) NegInf = False"
| "ext_le (Fin a) (Fin b) = (a \<le> b)"
| "ext_le (Fin a) PosInf = True"
| "ext_le PosInf PosInf = True"
| "ext_le PosInf _ = False"

definition ext_lt :: "('a::linorder) ext \<Rightarrow> 'a ext \<Rightarrow> bool" where
  "ext_lt a b = (\<not> ext_le b a)"

definition ext_max :: "('a::linorder) ext \<Rightarrow> 'a ext \<Rightarrow> 'a ext" where
  "ext_max a b = (if ext_lt a b then b else a)"

definition ext_min :: "('a::linorder) ext \<Rightarrow> 'a ext \<Rightarrow> 'a ext" where
  "ext_min a b = (if ext_lt b a then b else a)"

fun ext_add :: "('a::plus) ext \<Rightarrow> 'a \<Rightarrow> 'a ext" where
  "ext_add (Fin a) k = Fin (a + k)"
| "ext_add NegInf k = NegInf"
| "ext_add PosInf k = PosInf"

text \<open>\<open>range(a, b, step)\<close> for the two steps the code uses, 1 and -1.\<close>

definition py_range :: "int \<Rightarrow> int \<Rightarrow> int \<Rightarrow> int list" where
  "py_range a b step = (if step > 0 then [a..b - 1] else rev [b + 1..a])"

definition sign_towards :: "int \<Rightarrow> int \<Rightarrow> int" where
  "sign_towards goal here = (if goal > here then 1 else if goal < here then -1 else 0)"

section \<open>minimax.py: the heuristic and the choice of adversaries\<close>

text \<open>\<open>evaluate_state\<close> of \<open>minimax.py\<close> (lines 415 to 493).\<close>

definition minimax_evaluate_state ::
  "world \<Rightarrow> nat \<Rightarrow> int \<Rightarrow> int \<Rightarrow> nat list \<Rightarrow> bool \<Rightarrow> int" where
  "minimax_evaluate_state w element goal_x goal_y adversaries bottom_row_priority =
     (let ex = el_x (objs w element); ey = el_y (objs w element);
          distance = \<bar>ex - goal_x\<bar> + \<bar>ey - goal_y\<bar>;
          distance_score =
            (if bottom_row_priority
             then (-5 * distance + (ey - goal_y) * 20) - (if ey \<ge> 9 then 100 else 0)
             else -10 * distance);
          dx_sign = sign_towards goal_x ex;
          dy_sign = sign_towards goal_y ey;
          penalty_x =
            (if dx_sign \<noteq> 0
                \<and> list_ex (\<lambda>x. is_wall w x ey \<or> is_element w x ey)
                     (py_range (ex + dx_sign) (goal_x + dx_sign) dx_sign)
             then -15 else 0);
          penalty_y =
            (if dy_sign \<noteq> 0
                \<and> list_ex (\<lambda>y. is_wall w ex y \<or> is_element w ex y)
                     (py_range (ey + dy_sign) (goal_y + dy_sign) dy_sign)
             then -15 - (if bottom_row_priority \<and> dy_sign < 0 then 30 else 0) else 0);
          path_penalty = penalty_x + penalty_y;
          neighbors = get_neighbors w ex ey VonNeumann;
          free_neighbors = length (filter (free_cell w) neighbors);
          mobility_score = 5 * int free_neighbors;
          upward_path_score =
            (if bottom_row_priority \<and> list_ex (\<lambda>p. snd p < ey \<and> free_cell w p) neighbors
             then 50 else 0);
          adversary_penalty =
            sum_list (map (\<lambda>adv_id.
               if adv_id \<in> set (ids w)
               then (let adv_distance = \<bar>ex - el_x (objs w adv_id)\<bar> + \<bar>ey - el_y (objs w adv_id)\<bar>
                     in if adv_distance \<le> 2 then - ((3 - adv_distance) * 10) else 0)
               else 0) adversaries)
      in if bottom_row_priority
         then distance_score + path_penalty + mobility_score + upward_path_score + adversary_penalty
         else distance_score + path_penalty + mobility_score + adversary_penalty)"

text \<open>\<open>calculate_threat_level\<close> (lines 371 to 413).\<close>

definition calculate_threat_level ::
  "int \<Rightarrow> int \<Rightarrow> int \<Rightarrow> int \<Rightarrow> int \<Rightarrow> int \<Rightarrow> int \<Rightarrow> int \<Rightarrow> bool \<Rightarrow> int" where
  "calculate_threat_level our_start_x our_start_y our_goal_x our_goal_y
       their_start_x their_start_y their_goal_x their_goal_y bottom_row_priority =
     (let distance_to_our_start = \<bar>their_start_x - our_start_x\<bar> + \<bar>their_start_y - our_start_y\<bar>;
          distance_to_our_goal = \<bar>their_start_x - our_goal_x\<bar> + \<bar>their_start_y - our_goal_y\<bar>;
          our_dx = our_goal_x - our_start_x;
          our_dy = our_goal_y - our_start_y;
          their_dx = their_goal_x - their_start_x;
          their_dy = their_goal_y - their_start_y;
          cross_product = our_dx * their_dy - our_dy * their_dx;
          proximity_threat = 20 - min (min distance_to_our_start distance_to_our_goal) 20;
          blocking_threat =
            (if bottom_row_priority \<and> their_start_y < our_start_y
                \<and> \<bar>their_start_x - our_start_x\<bar> \<le> 1 then 50 else 0);
          crossing_threat = (if \<bar>cross_product\<bar> < 10 then 5 else 15);
          in_path_threat =
            (if min our_start_x our_goal_x \<le> their_start_x
                \<and> their_start_x \<le> max our_start_x our_goal_x
                \<and> min our_start_y our_goal_y \<le> their_start_y
                \<and> their_start_y \<le> max our_start_y our_goal_y then 20 else 0)
      in proximity_threat + blocking_threat + crossing_threat + in_path_threat)"

text \<open>
  \<open>find_potential_adversaries\<close> (lines 298 to 369). The loop body yields at most one
  pair of id and threat level per element; Python's \<open>sort\<close> with \<open>reverse=True\<close> is
  stable, as is \<open>sort_key\<close> on the negated threat.
\<close>

definition adversary_candidate ::
  "world \<Rightarrow> nat \<Rightarrow> int \<Rightarrow> int \<Rightarrow> int \<Rightarrow> int \<Rightarrow> bool \<Rightarrow> nat \<Rightarrow> (nat \<times> int) option" where
  "adversary_candidate w element_id start_x start_y goal_x goal_y bottom_row_priority other_id =
     (let other = objs w other_id;
          min_x = min start_x goal_x - 2;
          max_x = max start_x goal_x + 2;
          min_y = (if bottom_row_priority then min (start_y - 3) goal_y
                   else min start_y goal_y - 2);
          max_y = (if bottom_row_priority then min (start_y + 1) (goal_y + 1)
                   else max start_y goal_y + 2)
      in if other_id = element_id then None
         else if \<not> (min_x \<le> el_x other \<and> el_x other \<le> max_x
                     \<and> min_y \<le> el_y other \<and> el_y other \<le> max_y) then None
         else (case (target_x other, target_y other) of
                 (Some tx, Some ty) \<Rightarrow>
                   if \<not> (el_x other \<noteq> tx \<or> el_y other \<noteq> ty) then None
                   else if bottom_row_priority \<and> el_y other < start_y
                           \<and> \<bar>el_x other - start_x\<bar> \<le> 1 then Some (other_id, 100)
                   else
                     (let other_min_x = min (el_x other) tx;
                          other_max_x = max (el_x other) tx;
                          other_min_y = min (el_y other) ty;
                          other_max_y = max (el_y other) ty;
                          x_overlap = (min_x \<le> other_max_x \<and> max_x \<ge> other_min_x);
                          y_overlap = (min_y \<le> other_max_y \<and> max_y \<ge> other_min_y)
                      in if x_overlap \<and> y_overlap
                         then Some (other_id,
                                calculate_threat_level start_x start_y goal_x goal_y
                                  (el_x other) (el_y other) tx ty bottom_row_priority)
                         else None)
               | _ \<Rightarrow> None))"

definition find_potential_adversaries ::
  "world \<Rightarrow> nat \<Rightarrow> int \<Rightarrow> int \<Rightarrow> int \<Rightarrow> int \<Rightarrow> bool \<Rightarrow> nat list" where
  "find_potential_adversaries w element_id start_x start_y goal_x goal_y bottom_row_priority =
     (let adversaries =
            List.map_filter
              (adversary_candidate w element_id start_x start_y goal_x goal_y bottom_row_priority)
              (ids w);
          max_adversaries = (if bottom_row_priority then 3 else 2)
      in map fst (take max_adversaries (sort_key (\<lambda>a. - snd a) adversaries)))"

section \<open>minimax.py: the recursive search\<close>

text \<open>
  A call of the search returns a value or raises, and leaves a world behind in either
  case. The two loops of \<open>minimax_value\<close> are functions of their own; \<open>child\<close> is
  the recursive call of the loop body, which receives the current \<open>alpha\<close> (in the
  loop of the maximising node) or the current \<open>beta\<close> (in the loop of the minimising
  node). An exception leaves the loop at once, without the restoring statements.
\<close>

type_synonym 'v outcome = "(error + 'v ext) \<times> world"

fun minimax_max_loop ::
  "(int ext \<Rightarrow> world \<Rightarrow> int outcome) \<Rightarrow> nat \<Rightarrow> pos list \<Rightarrow> int ext \<Rightarrow> int ext \<Rightarrow> int ext
     \<Rightarrow> world \<Rightarrow> int outcome" where
  "minimax_max_loop child element [] value alpha beta w = (Inr value, w)"
| "minimax_max_loop child element ((nx, ny) # rest) value alpha beta w =
     (let old_x = el_x (objs w element); old_y = el_y (objs w element);
          w1 = simulate_move w element nx ny
      in case child alpha w1 of
           (Inl err, w2) \<Rightarrow> (Inl err, w2)
         | (Inr move_value, w2) \<Rightarrow>
             (let w3 = simulate_move w2 element old_x old_y;
                  value' = ext_max value move_value;
                  alpha' = ext_max alpha value'
              in if ext_le beta alpha' then (Inr value', w3)
                 else minimax_max_loop child element rest value' alpha' beta w3))"

fun minimax_min_loop ::
  "(int ext \<Rightarrow> world \<Rightarrow> int outcome) \<Rightarrow> nat \<Rightarrow> pos list \<Rightarrow> int ext \<Rightarrow> int ext \<Rightarrow> int ext
     \<Rightarrow> world \<Rightarrow> int outcome" where
  "minimax_min_loop child adversary [] value alpha beta w = (Inr value, w)"
| "minimax_min_loop child adversary ((nx, ny) # rest) value alpha beta w =
     (let stay = (nx = el_x (objs w adversary) \<and> ny = el_y (objs w adversary));
          old_x = el_x (objs w adversary); old_y = el_y (objs w adversary);
          w1 = (if stay then w else simulate_move w adversary nx ny)
      in case child beta w1 of
           (Inl err, w2) \<Rightarrow> (Inl err, w2)
         | (Inr move_value, w2) \<Rightarrow>
             (let w3 = (if stay then w2 else simulate_move w2 adversary old_x old_y);
                  value' = ext_min value move_value;
                  beta' = ext_min beta value'
              in if ext_le beta' alpha then (Inr value', w3)
                 else minimax_min_loop child adversary rest value' alpha beta' w3))"

function minimax_value ::
  "nat \<Rightarrow> nat list \<Rightarrow> int \<Rightarrow> int \<Rightarrow> bool \<Rightarrow> int ext \<Rightarrow> int ext \<Rightarrow> topology \<Rightarrow> int \<Rightarrow> int \<Rightarrow> bool
     \<Rightarrow> world \<Rightarrow> int outcome" where
  "minimax_value element_id adversaries depth max_depth is_max alpha beta topology
       goal_x goal_y bottom_row_priority w =
     (if element_id \<notin> set (ids w) then (Inl KeyError, w)
      else if depth \<ge> max_depth
      then (Inr (Fin (minimax_evaluate_state w element_id goal_x goal_y adversaries
                        bottom_row_priority)), w)
      else if el_x (objs w element_id) = goal_x \<and> el_y (objs w element_id) = goal_y
      then (Inr (Fin 1000), w)
      else if is_max then
        (let neighbors = get_neighbors w (el_x (objs w element_id)) (el_y (objs w element_id))
                           topology;
             valid_moves = filter (free_cell w) neighbors;
             upward_moves = filter (\<lambda>p. snd p < el_y (objs w element_id)) valid_moves;
             valid_moves' = (if bottom_row_priority \<and> valid_moves \<noteq> [] \<and> upward_moves \<noteq> []
                             then upward_moves else valid_moves)
         in if valid_moves' = []
            then (Inr (Fin (minimax_evaluate_state w element_id goal_x goal_y adversaries
                              bottom_row_priority - 20)), w)
            else minimax_max_loop
                   (\<lambda>a w'. minimax_value element_id adversaries (depth + 1) max_depth False a beta
                              topology goal_x goal_y bottom_row_priority w')
                   element_id valid_moves' NegInf alpha beta w)
      else
        (case adversaries of
           [] \<Rightarrow> minimax_value element_id adversaries (depth + 1) max_depth True alpha beta
                   topology goal_x goal_y bottom_row_priority w
         | adversary_id # remaining_adversaries \<Rightarrow>
             if adversary_id \<in> set (ids w) then
               (let ax = el_x (objs w adversary_id); ay = el_y (objs w adversary_id);
                    neighbors = get_neighbors w ax ay topology;
                    valid_moves =
                      filter (\<lambda>p. \<not> is_wall w (fst p) (snd p)
                                   \<and> \<not> (fst p = el_x (objs w element_id)
                                         \<and> snd p = el_y (objs w element_id))
                                   \<and> \<not> is_element w (fst p) (snd p)) neighbors
                      @ [(ax, ay)]
                      @ (if ay \<ge> 9 \<and> bottom_row_priority then replicate 3 (ax, ay) else [])
                in if valid_moves = []
                   then minimax_value element_id remaining_adversaries (depth + 1) max_depth True
                          alpha beta topology goal_x goal_y bottom_row_priority w
                   else minimax_min_loop
                          (\<lambda>b w'. minimax_value element_id remaining_adversaries (depth + 1)
                                     max_depth True alpha b topology goal_x goal_y
                                     bottom_row_priority w')
                          adversary_id valid_moves PosInf alpha beta w)
             else (Inr PosInf, w)))"
  by pat_completeness auto
termination
  by (relation "measure (\<lambda>(element_id, adversaries, depth, max_depth, rest). nat (max_depth - depth))")
     auto

declare minimax_value.simps [simp del]

section \<open>minimax.py: the pathfinder\<close>

text \<open>
  The escape bias of \<open>minimax_pathfind\<close> (lines 60 to 70): the result it returns at
  once, or \<open>None\<close> when execution falls through to the stuck test and the search.
  \<open>random.choice\<close> picks the element at index \<open>rnd_pick\<close> modulo the length.
\<close>

definition minimax_fast_path ::
  "nat \<Rightarrow> world \<Rightarrow> int \<Rightarrow> int \<Rightarrow> int \<Rightarrow> topology \<Rightarrow> bool \<Rightarrow> pos list \<Rightarrow> (pos list option \<times> nat) option" where
  "minimax_fast_path rnd_pick w start_x start_y goal_y topology bottom_row_priority valid_moves =
     (let upward_moves = filter (\<lambda>p. snd p < start_y) valid_moves;
          vertical_blocked =
            list_ex (\<lambda>y. is_element w start_x y) (py_range (start_y - 1) (goal_y - 1) (-1))
      in if bottom_row_priority \<and> valid_moves \<noteq> [] \<and> upward_moves \<noteq> [] then
           (if vertical_blocked \<and> topology = Moore \<and> length upward_moves > 1
            then Some (Some [(start_x, start_y), upward_moves ! (rnd_pick mod length upward_moves)], 1)
            else if \<not> vertical_blocked \<and> upward_moves \<noteq> []
            then Some (Some [(start_x, start_y), hd upward_moves], 1)
            else None)
         else None)"

text \<open>
  The loop over the first moves (lines 105 to 131) and \<open>minimax_pathfind\<close> itself.
  \<open>rnd_unit\<close> is the number that \<open>random.random()\<close> returns.
\<close>

fun minimax_root_loop ::
  "nat \<Rightarrow> nat list \<Rightarrow> int \<Rightarrow> topology \<Rightarrow> int \<Rightarrow> int \<Rightarrow> bool \<Rightarrow> int \<Rightarrow> int \<Rightarrow> int
     \<Rightarrow> pos list \<Rightarrow> int ext \<Rightarrow> pos option \<Rightarrow> int ext \<Rightarrow> nat \<Rightarrow> world
     \<Rightarrow> (error + (pos option \<times> nat)) \<times> world" where
  "minimax_root_loop element_id adversaries max_depth topology goal_x goal_y bottom_row_priority
       start_y original_x original_y [] best_value best_move alpha nodes_explored w =
     (Inr (best_move, nodes_explored), w)"
| "minimax_root_loop element_id adversaries max_depth topology goal_x goal_y bottom_row_priority
       start_y original_x original_y ((nx, ny) # rest) best_value best_move alpha nodes_explored w =
     (let w1 = simulate_move w element_id nx ny
      in case minimax_value element_id adversaries 1 max_depth False alpha PosInf topology
                goal_x goal_y bottom_row_priority w1 of
           (Inl err, w2) \<Rightarrow> (Inl err, w2)
         | (Inr value, w2) \<Rightarrow>
             (let nodes_explored' = nodes_explored + 1;
                  value' = (if bottom_row_priority \<and> ny < start_y then ext_add value 50 else value);
                  w3 = simulate_move w2 element_id original_x original_y;
                  better = ext_lt best_value value';
                  best_value' = (if better then value' else best_value);
                  best_move' = (if better then Some (nx, ny) else best_move);
                  alpha' = ext_max alpha best_value'
              in minimax_root_loop element_id adversaries max_depth topology goal_x goal_y
                   bottom_row_priority start_y original_x original_y rest best_value' best_move'
                   alpha' nodes_explored' w3))"

type_synonym pathfinder =
  "world \<Rightarrow> int \<Rightarrow> int \<Rightarrow> int \<Rightarrow> int \<Rightarrow> topology \<Rightarrow> pos list option \<times> nat"

text \<open>
  The end of both pathfinders: the path is the start and the best first move, completed
  by the baseline pathfinder unless the element has bottom-row priority. The module
  \<open>app.algorithms.astar\<close> is not part of the source tree; \<open>astar_pathfind\<close> is a
  parameter of the model, a function of the grid it is given.
\<close>

definition complete_path ::
  "pathfinder \<Rightarrow> world \<Rightarrow> nat \<Rightarrow> int \<Rightarrow> int \<Rightarrow> int \<Rightarrow> int \<Rightarrow> topology \<Rightarrow> bool
     \<Rightarrow> pos option \<Rightarrow> nat \<Rightarrow> (pos list option \<times> nat) \<times> world" where
  "complete_path astar_pathfind w element_id start_x start_y goal_x goal_y topology
       bottom_row best_move nodes_explored =
     (case best_move of
        None \<Rightarrow> ((None, nodes_explored), w)
      | Some best \<Rightarrow>
          (let path = [(start_x, start_y), best]
           in if bottom_row then ((Some path, nodes_explored), w)
              else
                (let w1 = remove_element w element_id;
                     (sub_path, sub_nodes) =
                       astar_pathfind w1 (fst best) (snd best) goal_x goal_y topology;
                     w2 = add_element w1 element_id
                 in case sub_path of
                      Some sp \<Rightarrow>
                        if sp \<noteq> [] \<and> length sp > 1
                        then ((Some (path @ tl sp), nodes_explored + sub_nodes), w2)
                        else ((Some path, nodes_explored), w2)
                    | None \<Rightarrow> ((Some path, nodes_explored), w2))))"

text \<open>
  The choice of the best first move (lines 87 to 131): with bottom-row priority and a
  draw below 0.3 a random upward move, otherwise the loop over all first moves.
\<close>

definition minimax_best_first_move ::
  "rat \<Rightarrow> nat \<Rightarrow> nat \<Rightarrow> nat list \<Rightarrow> int \<Rightarrow> topology \<Rightarrow> int \<Rightarrow> int \<Rightarrow> bool \<Rightarrow> int \<Rightarrow> int \<Rightarrow> int
     \<Rightarrow> pos list \<Rightarrow> world \<Rightarrow> (error + (pos option \<times> nat)) \<times> world" where
  "minimax_best_first_move rnd_unit rnd_pick element_id adversaries max_depth topology goal_x goal_y
       bottom_row_priority start_y original_x original_y valid_moves w =
     (let upward_moves = filter (\<lambda>p. snd p < start_y) valid_moves;
          random_choice = (bottom_row_priority \<and> rnd_unit < 3 / 10 \<and> upward_moves \<noteq> [])
      in if random_choice
         then (Inr (Some (upward_moves ! (rnd_pick mod length upward_moves)), 0), w)
         else minimax_root_loop element_id adversaries max_depth topology goal_x goal_y
                bottom_row_priority start_y original_x original_y valid_moves NegInf None NegInf
                0 w)"

definition minimax_pathfind ::
  "pathfinder \<Rightarrow> rat \<Rightarrow> nat \<Rightarrow> world \<Rightarrow> int \<Rightarrow> int \<Rightarrow> int \<Rightarrow> int \<Rightarrow> nat \<Rightarrow> topology \<Rightarrow> int
     \<Rightarrow> (error + (pos list option \<times> nat)) \<times> world" where
  "minimax_pathfind astar_pathfind rnd_unit rnd_pick w start_x start_y goal_x goal_y element_id
       topology max_depth =
     (if \<not> is_valid_position w start_x start_y \<or> \<not> is_valid_position w goal_x goal_y
      then (Inr (None, 0), w)
      else if is_wall w start_x start_y \<or> is_wall w goal_x goal_y then (Inr (None, 0), w)
      else if start_x = goal_x \<and> start_y = goal_y then (Inr (Some [(start_x, start_y)], 1), w)
      else if element_id \<notin> set (ids w) then (Inr (None, 0), w)
      else
        (let num_elements = length (ids w);
             max_depth' = (if num_elements > 10 then max 1 (max_depth - 1) else max_depth);
             bottom_row_priority = (el_y (objs w element_id) \<ge> 9);
             original_x = el_x (objs w element_id);
             original_y = el_y (objs w element_id);
             adversaries = find_potential_adversaries w element_id start_x start_y goal_x goal_y
                             bottom_row_priority;
             neighbors = get_neighbors w start_x start_y topology;
             valid_moves = filter (free_cell w) neighbors
         in case minimax_fast_path rnd_pick w start_x start_y goal_y topology bottom_row_priority
                   valid_moves of
              Some r \<Rightarrow> (Inr r, w)
            | None \<Rightarrow>
                if valid_moves = [] then (Inr (Some [(start_x, start_y)], 1), w)
                else
                  (case minimax_best_first_move rnd_unit rnd_pick element_id adversaries max_depth'
                          topology goal_x goal_y bottom_row_priority start_y original_x original_y
                          valid_moves w of
                     (Inl err, w') \<Rightarrow> (Inl err, w')
                   | (Inr (best_move, nodes_explored), w') \<Rightarrow>
                       (case complete_path astar_pathfind w' element_id start_x start_y goal_x
                               goal_y topology bottom_row_priority best_move nodes_explored of
                          (r, w'') \<Rightarrow> (Inr r, w'')))))"

section \<open>expectimax.py: the recursive search\<close>

text \<open>
  Expectimax multiplies a value by a positive probability and adds the products. Its
  scores are Python floats; the model computes in the rationals, so the rounding of the
  float operations is not part of it. Expectimax never produces \<open>float('inf')\<close>, so the
  sum of \<open>inf\<close> and \<open>-inf\<close> does not arise.
\<close>

fun ext_plus :: "rat ext \<Rightarrow> rat ext \<Rightarrow> rat ext" where
  "ext_plus (Fin a) (Fin b) = Fin (a + b)"
| "ext_plus NegInf _ = NegInf"
| "ext_plus _ NegInf = NegInf"
| "ext_plus PosInf _ = PosInf"
| "ext_plus _ PosInf = PosInf"

fun ext_scale :: "rat \<Rightarrow> rat ext \<Rightarrow> rat ext" where
  "ext_scale p (Fin a) = Fin (p * a)"
| "ext_scale p NegInf = NegInf"
| "ext_scale p PosInf = PosInf"

text \<open>The argument \<open>node_type\<close>, the string \<open>"max"\<close> or \<open>"chance"\<close>.\<close>

datatype node_type = MaxNode | ChanceNode

text \<open>
  \<open>evaluate_state\<close> of \<open>expectimax.py\<close> (lines 510 to 608). With \<open>is_bottom_row\<close> the
  first statement of the branch at line 532 reads \<open>start_y\<close>, a name bound neither in
  the function nor in the module, which raises \<open>NameError\<close>.
\<close>

definition expectimax_evaluate_state ::
  "world \<Rightarrow> nat \<Rightarrow> int \<Rightarrow> int \<Rightarrow> nat list \<Rightarrow> bool \<Rightarrow> error + rat" where
  "expectimax_evaluate_state w element goal_x goal_y interfering_elements is_bottom_row =
     (let ex = el_x (objs w element); ey = el_y (objs w element);
          distance = \<bar>ex - goal_x\<bar> + \<bar>ey - goal_y\<bar>;
          distance_score = -10 * distance
      in if is_bottom_row then Inl NameError
         else
           (let dx_sign = sign_towards goal_x ex;
                horizontal_blocked =
                  (dx_sign \<noteq> 0
                   \<and> list_ex (\<lambda>x. is_wall w x ey \<or> is_element w x ey)
                        (py_range (ex + dx_sign) (goal_x + dx_sign) dx_sign));
                dy_sign = sign_towards goal_y ey;
                vertical_blocked =
                  (dy_sign \<noteq> 0
                   \<and> list_ex (\<lambda>y. is_wall w ex y \<or> is_element w ex y)
                        (py_range (ey + dy_sign) (goal_y + dy_sign) dy_sign));
                path_clearness =
                  (if horizontal_blocked then -15 else 0)
                  + (if vertical_blocked
                     then -15 - (if is_bottom_row \<and> dy_sign < 0 then 25 else 0) else 0);
                neighbors = get_neighbors w ex ey VonNeumann;
                free_neighbors = length (filter (free_cell w) neighbors);
                mobility_score = 5 * int free_neighbors;
                upward_path_score =
                  (if is_bottom_row \<and> list_ex (\<lambda>p. snd p < ey \<and> free_cell w p) neighbors
                   then 40 else 0);
                interference_penalty =
                  sum_list (map (\<lambda>other_id.
                     if other_id \<in> set (ids w)
                     then (let other_distance = \<bar>ex - el_x (objs w other_id)\<bar>
                                                + \<bar>ey - el_y (objs w other_id)\<bar>
                           in (if other_distance \<le> 2 then - ((3 - other_distance) * 10) else 0)
                              + (if is_bottom_row \<and> el_y (objs w other_id) < ey
                                    \<and> \<bar>el_x (objs w other_id) - ex\<bar> \<le> 1 then -20 else 0))
                     else 0) interfering_elements)
            in if is_bottom_row
               then Inr (of_int distance_score + of_int path_clearness * (3 / 2)
                         + of_int mobility_score + of_int upward_path_score
                         + of_int interference_penalty)
               else Inr (of_int (distance_score + path_clearness + mobility_score
                                 + interference_penalty))))"

text \<open>
  The chance node (lines 280 to 321): the moves of the interfering element, the
  dictionary \<open>move_weights\<close> as an association list in insertion order, and the weight
  of staying in place.
\<close>

definition stay_weight :: "world \<Rightarrow> nat \<Rightarrow> rat" where
  "stay_weight w other = (if el_y (objs w other) \<ge> height w - 3 then 3 else 3 / 2)"

definition move_weights :: "world \<Rightarrow> nat \<Rightarrow> pos list \<Rightarrow> (pos \<times> rat) list" where
  "move_weights w other valid_moves =
     fold (\<lambda>p m. AList.update p
              (if fst p = el_x (objs w other) \<and> snd p = el_y (objs w other)
               then stay_weight w other else 1) m)
       valid_moves []"

definition chance_moves :: "world \<Rightarrow> nat \<Rightarrow> nat \<Rightarrow> topology \<Rightarrow> pos list" where
  "chance_moves w element_id other topology =
     filter (\<lambda>p. \<not> is_wall w (fst p) (snd p)
                  \<and> \<not> (fst p = el_x (objs w element_id) \<and> snd p = el_y (objs w element_id))
                  \<and> \<not> is_element w (fst p) (snd p))
       (get_neighbors w (el_x (objs w other)) (el_y (objs w other)) topology)
     @ [(el_x (objs w other), el_y (objs w other))]"

text \<open>
  The loops of the maximising node (lines 220 to 249) and of the chance node (lines 324
  to 370), and \<open>expectimax_value\<close>. \<open>child\<close> is the recursive call of the loop body.
\<close>

fun expectimax_max_loop ::
  "(world \<Rightarrow> rat outcome) \<Rightarrow> nat \<Rightarrow> pos list \<Rightarrow> rat ext \<Rightarrow> world \<Rightarrow> rat outcome" where
  "expectimax_max_loop child element [] value w = (Inr value, w)"
| "expectimax_max_loop child element ((nx, ny) # rest) value w =
     (let old_x = el_x (objs w element); old_y = el_y (objs w element);
          w1 = simulate_move w element nx ny
      in case child w1 of
           (Inl err, w2) \<Rightarrow> (Inl err, w2)
         | (Inr move_value, w2) \<Rightarrow>
             (let w3 = simulate_move w2 element old_x old_y
              in expectimax_max_loop child element rest (ext_max value move_value) w3))"

fun expectimax_chance_loop ::
  "(world \<Rightarrow> rat outcome) \<Rightarrow> nat \<Rightarrow> (pos \<times> rat) list \<Rightarrow> rat \<Rightarrow> pos list \<Rightarrow> rat ext \<Rightarrow> world
     \<Rightarrow> rat outcome" where
  "expectimax_chance_loop child other weights total_weight [] total_value w =
     (Inr total_value, w)"
| "expectimax_chance_loop child other weights total_weight ((nx, ny) # rest) total_value w =
     (case map_of weights (nx, ny) of
        None \<Rightarrow> (Inl KeyError, w)
      | Some weight \<Rightarrow>
          (let probability = weight / total_weight
           in if probability < 1 / 100
              then expectimax_chance_loop child other weights total_weight rest total_value w
              else
                (let stay = (nx = el_x (objs w other) \<and> ny = el_y (objs w other));
                     old_x = el_x (objs w other); old_y = el_y (objs w other);
                     w1 = (if stay then w else simulate_move w other nx ny)
                 in case child w1 of
                      (Inl err, w2) \<Rightarrow> (Inl err, w2)
                    | (Inr move_value, w2) \<Rightarrow>
                        (let w3 = (if stay then w2 else simulate_move w2 other old_x old_y)
                         in expectimax_chance_loop child other weights total_weight rest
                              (ext_plus total_value (ext_scale probability move_value)) w3))))"

function expectimax_value ::
  "nat \<Rightarrow> nat list \<Rightarrow> int \<Rightarrow> int \<Rightarrow> node_type \<Rightarrow> topology \<Rightarrow> int \<Rightarrow> int \<Rightarrow> bool \<Rightarrow> world
     \<Rightarrow> rat outcome" where
  "expectimax_value element_id interfering_elements depth max_depth node_type topology
       goal_x goal_y is_bottom_row w =
     (if element_id \<notin> set (ids w) then (Inl KeyError, w)
      else if depth \<ge> max_depth
      then (case expectimax_evaluate_state w element_id goal_x goal_y interfering_elements
                   is_bottom_row of
              Inl err \<Rightarrow> (Inl err, w) | Inr v \<Rightarrow> (Inr (Fin v), w))
      else if el_x (objs w element_id) = goal_x \<and> el_y (objs w element_id) = goal_y
      then (Inr (Fin 1000), w)
      else if node_type = MaxNode then
        (let neighbors = get_neighbors w (el_x (objs w element_id)) (el_y (objs w element_id))
                           topology;
             valid_moves = filter (free_cell w) neighbors;
             upward_moves = filter (\<lambda>p. snd p < el_y (objs w element_id)) valid_moves;
             valid_moves' = (if is_bottom_row \<and> valid_moves \<noteq> [] \<and> upward_moves \<noteq> []
                             then upward_moves else valid_moves)
         in if valid_moves' = []
            then (case expectimax_evaluate_state w element_id goal_x goal_y interfering_elements
                         is_bottom_row of
                    Inl err \<Rightarrow> (Inl err, w) | Inr v \<Rightarrow> (Inr (Fin (v - 20)), w))
            else expectimax_max_loop
                   (\<lambda>w'. expectimax_value element_id interfering_elements (depth + 1) max_depth
                            (if interfering_elements \<noteq> [] then ChanceNode else MaxNode)
                            topology goal_x goal_y is_bottom_row w')
                   element_id valid_moves' NegInf w)
      else
        (case interfering_elements of
           [] \<Rightarrow> expectimax_value element_id [] (depth + 1) max_depth MaxNode topology
                   goal_x goal_y is_bottom_row w
         | other_id # remaining_elements \<Rightarrow>
             if other_id \<notin> set (ids w) then
               (if remaining_elements \<noteq> []
                then expectimax_value element_id remaining_elements depth max_depth ChanceNode
                       topology goal_x goal_y is_bottom_row w
                else expectimax_value element_id [] (depth + 1) max_depth MaxNode topology
                       goal_x goal_y is_bottom_row w)
             else
               (let valid_moves = chance_moves w element_id other_id topology
                in if valid_moves = [] then
                     (if remaining_elements \<noteq> []
                      then expectimax_value element_id remaining_elements depth max_depth
                             ChanceNode topology goal_x goal_y is_bottom_row w
                      else expectimax_value element_id [] (depth + 1) max_depth MaxNode topology
                             goal_x goal_y is_bottom_row w)
                   else
                     (let weights = move_weights w other_id valid_moves;
                          total_weight = sum_list (map snd weights)
                      in expectimax_chance_loop
                           (\<lambda>w'. if remaining_elements \<noteq> []
                                  then expectimax_value element_id remaining_elements depth
                                         max_depth ChanceNode topology goal_x goal_y
                                         is_bottom_row w'
                                  else expectimax_value element_id [] (depth + 1) max_depth
                                         MaxNode topology goal_x goal_y is_bottom_row w')
                           other_id weights total_weight valid_moves (Fin 0) w))))"
  by pat_completeness auto
termination
  by (relation "measures [\<lambda>(element_id, interfering_elements, depth, max_depth, rest).
                            nat (max_depth - depth),
                          \<lambda>(element_id, interfering_elements, depth, max_depth, rest).
                            length interfering_elements]")
     auto

declare expectimax_value.simps [simp del]

section \<open>expectimax.py: the pathfinder\<close>

text \<open>
  \<open>calculate_interference_score\<close> (lines 427 to 508) and \<open>find_interfering_elements\<close>
  (lines 372 to 425). When start and goal differ in both coordinates, lines 454 to 464
  project the other element onto the line from start to goal and test
  \<open>dist_to_line <= 1\<close> in floating point. The rounding of these operations is not
  modelled: the outcome of the test is the parameter \<open>near_line\<close>, a function of the
  six integers from which the code computes it. The divisor \<open>dx*dx + dy*dy\<close> is
  positive in that branch, so the test does not raise.
\<close>

type_synonym line_test = "int \<Rightarrow> int \<Rightarrow> int \<Rightarrow> int \<Rightarrow> int \<Rightarrow> int \<Rightarrow> bool"

definition calculate_interference_score ::
  "line_test \<Rightarrow> int \<Rightarrow> int \<Rightarrow> int \<Rightarrow> int \<Rightarrow> int \<Rightarrow> int \<Rightarrow> int option \<Rightarrow> int option \<Rightarrow> bool
     \<Rightarrow> int" where
  "calculate_interference_score near_line our_start_x our_start_y our_goal_x our_goal_y
       their_x their_y their_target_x their_target_y is_bottom_row =
     (let distance_to_our_pos = \<bar>their_x - our_start_x\<bar> + \<bar>their_y - our_start_y\<bar>;
          distance_to_our_goal = \<bar>their_x - our_goal_x\<bar> + \<bar>their_y - our_goal_y\<bar>;
          on_our_path =
            (if our_start_x = our_goal_x
             then their_x = our_start_x \<and> min our_start_y our_goal_y \<le> their_y
                  \<and> their_y \<le> max our_start_y our_goal_y
             else if our_start_y = our_goal_y
             then their_y = our_start_y \<and> min our_start_x our_goal_x \<le> their_x
                  \<and> their_x \<le> max our_start_x our_goal_x
             else
               (let in_box = (min our_start_x our_goal_x \<le> their_x
                              \<and> their_x \<le> max our_start_x our_goal_x
                              \<and> min our_start_y our_goal_y \<le> their_y
                              \<and> their_y \<le> max our_start_y our_goal_y)
                in in_box
                   \<and> near_line our_start_x our_start_y our_goal_x our_goal_y their_x their_y));
          path_intersection =
            (case (their_target_x, their_target_y) of
               (Some ttx, Some tty) \<Rightarrow>
                 (let our_dx = our_goal_x - our_start_x;
                      our_dy = our_goal_y - our_start_y;
                      their_dx = ttx - their_x;
                      their_dy = tty - their_y;
                      cross_mag = \<bar>our_dx * their_dy - our_dy * their_dx\<bar>;
                      dot_product = our_dx * their_dx + our_dy * their_dy
                  in if cross_mag > 5 then 20 else if dot_product < 0 then 10 else 5)
             | _ \<Rightarrow> 0);
          bottom_row_factor =
            (if is_bottom_row
             then (if their_y < our_start_y \<and> \<bar>their_x - our_start_x\<bar> \<le> 1 then 50
                   else if their_y < our_start_y \<and> their_x = our_start_x then 40 else 0)
             else 0);
          proximity_score = max 0 (10 - min distance_to_our_pos distance_to_our_goal)
      in proximity_score * 2 + (if on_our_path then 30 else 0) + path_intersection
         + bottom_row_factor)"

definition interference_candidate ::
  "line_test \<Rightarrow> world \<Rightarrow> nat \<Rightarrow> int \<Rightarrow> int \<Rightarrow> int \<Rightarrow> int \<Rightarrow> bool \<Rightarrow> nat
     \<Rightarrow> (nat \<times> int) option" where
  "interference_candidate near_line w element_id start_x start_y goal_x goal_y is_bottom_row
       other_id =
     (let other = objs w other_id;
          min_x = min start_x goal_x - 2;
          max_x = max start_x goal_x + 2;
          min_y = (if is_bottom_row then min (start_y - 3) goal_y else min start_y goal_y - 2);
          max_y = (if is_bottom_row then min (start_y + 1) (goal_y + 1)
                   else max start_y goal_y + 2)
      in if other_id = element_id then None
         else if \<not> (min_x \<le> el_x other \<and> el_x other \<le> max_x
                     \<and> min_y \<le> el_y other \<and> el_y other \<le> max_y) then None
         else if has_target other \<and> \<not> at_target other
         then Some (other_id,
                calculate_interference_score near_line start_x start_y goal_x goal_y
                  (el_x other) (el_y other) (target_x other) (target_y other) is_bottom_row)
         else None)"

definition find_interfering_elements ::
  "line_test \<Rightarrow> world \<Rightarrow> nat \<Rightarrow> int \<Rightarrow> int \<Rightarrow> int \<Rightarrow> int \<Rightarrow> bool \<Rightarrow> nat list" where
  "find_interfering_elements near_line w element_id start_x start_y goal_x goal_y
       is_bottom_row =
     (let potential_interference =
            List.map_filter
              (interference_candidate near_line w element_id start_x start_y goal_x goal_y
                 is_bottom_row)
              (ids w);
          max_elements = (if is_bottom_row then 3 else 2)
      in map fst (take max_elements (sort_key (\<lambda>a. - snd a) potential_interference)))"

text \<open>
  The escape bias of \<open>expectimax_pathfind\<close> (lines 64 to 91): the result it returns at
  once, or \<open>None\<close> when execution falls through.
\<close>

definition expectimax_fast_path ::
  "nat \<Rightarrow> int \<Rightarrow> int \<Rightarrow> int \<Rightarrow> topology \<Rightarrow> bool \<Rightarrow> pos list \<Rightarrow> (pos list option \<times> nat) option" where
  "expectimax_fast_path rnd_pick start_x start_y goal_x topology is_bottom_row valid_moves =
     (let upward_moves = filter (\<lambda>p. snd p < start_y) valid_moves
      in if is_bottom_row \<and> valid_moves \<noteq> [] \<and> upward_moves \<noteq> [] then
           (if topology = Moore \<and> length upward_moves > 1 then
              (let target_dx = goal_x - start_x;
                   diagonal_toward_target =
                     filter (\<lambda>p. (target_dx > 0 \<and> fst p > start_x)
                                  \<or> (target_dx < 0 \<and> fst p < start_x)) upward_moves
               in if \<bar>target_dx\<bar> > 1 \<and> diagonal_toward_target \<noteq> []
                  then Some (Some [(start_x, start_y),
                                   diagonal_toward_target
                                     ! (rnd_pick mod length diagonal_toward_target)], 1)
                  else Some (Some [(start_x, start_y), hd upward_moves], 1))
            else
              (let straight_up = (start_x, start_y - 1)
               in if straight_up \<in> set upward_moves
                  then Some (Some [(start_x, start_y), straight_up], 1)
                  else Some (Some [(start_x, start_y), hd upward_moves], 1)))
         else None)"

text \<open>The loop over the first moves (lines 115 to 140) and \<open>expectimax_pathfind\<close>.\<close>

fun expectimax_root_loop ::
  "nat \<Rightarrow> nat list \<Rightarrow> int \<Rightarrow> topology \<Rightarrow> int \<Rightarrow> int \<Rightarrow> bool \<Rightarrow> int \<Rightarrow> int \<Rightarrow> int
     \<Rightarrow> pos list \<Rightarrow> rat ext \<Rightarrow> pos option \<Rightarrow> nat \<Rightarrow> world
     \<Rightarrow> (error + (pos option \<times> nat)) \<times> world" where
  "expectimax_root_loop element_id interfering_elements max_depth topology goal_x goal_y
       is_bottom_row start_y original_x original_y [] best_value best_move nodes_explored w =
     (Inr (best_move, nodes_explored), w)"
| "expectimax_root_loop element_id interfering_elements max_depth topology goal_x goal_y
       is_bottom_row start_y original_x original_y ((nx, ny) # rest) best_value best_move
       nodes_explored w =
     (let w1 = simulate_move w element_id nx ny
      in case expectimax_value element_id interfering_elements 1 max_depth MaxNode topology
                goal_x goal_y is_bottom_row w1 of
           (Inl err, w2) \<Rightarrow> (Inl err, w2)
         | (Inr value, w2) \<Rightarrow>
             (let nodes_explored' = nodes_explored + 1;
                  value' = (if is_bottom_row \<and> ny < start_y then ext_add value 100 else value);
                  w3 = simulate_move w2 element_id original_x original_y;
                  better = ext_lt best_value value';
                  best_value' = (if better then value' else best_value);
                  best_move' = (if better then Some (nx, ny) else best_move)
              in expectimax_root_loop element_id interfering_elements max_depth topology goal_x
                   goal_y is_bottom_row start_y original_x original_y rest best_value' best_move'
                   nodes_explored' w3))"

definition expectimax_pathfind ::
  "pathfinder \<Rightarrow> line_test \<Rightarrow> nat \<Rightarrow> world \<Rightarrow> int \<Rightarrow> int \<Rightarrow> int \<Rightarrow> int \<Rightarrow> nat \<Rightarrow> topology
     \<Rightarrow> int \<Rightarrow> (error + (pos list option \<times> nat)) \<times> world" where
  "expectimax_pathfind astar_pathfind near_line rnd_pick w start_x start_y goal_x goal_y
       element_id topology max_depth =
     (if \<not> is_valid_position w start_x start_y \<or> \<not> is_valid_position w goal_x goal_y
      then (Inr (None, 0), w)
      else if is_wall w start_x start_y \<or> is_wall w goal_x goal_y then (Inr (None, 0), w)
      else if start_x = goal_x \<and> start_y = goal_y then (Inr (Some [(start_x, start_y)], 1), w)
      else if element_id \<notin> set (ids w) then (Inr (None, 0), w)
      else
        (let num_elements = length (ids w);
             max_depth' = (if num_elements > 15 then 1 else if num_elements > 10 then 2
                           else max_depth);
             is_bottom_row = (el_y (objs w element_id) \<ge> height w - 3);
             interfering_elements = find_interfering_elements near_line w element_id start_x
                                      start_y goal_x goal_y is_bottom_row;
             original_x = el_x (objs w element_id);
             original_y = el_y (objs w element_id);
             neighbors = get_neighbors w start_x start_y topology;
             valid_moves = filter (free_cell w) neighbors
         in case expectimax_fast_path rnd_pick start_x start_y goal_x topology is_bottom_row
                   valid_moves of
              Some r \<Rightarrow> (Inr r, w)
            | None \<Rightarrow>
                if valid_moves = [] then (Inr (Some [(start_x, start_y)], 1), w)
                else
                  (case expectimax_root_loop element_id interfering_elements max_depth' topology
                          goal_x goal_y is_bottom_row start_y original_x original_y valid_moves
                          NegInf None 0 w of
                     (Inl err, w') \<Rightarrow> (Inl err, w')
                   | (Inr (best_move, nodes_explored), w') \<Rightarrow>
                       (case complete_path astar_pathfind w' element_id start_x start_y goal_x
                               goal_y topology is_bottom_row best_move nodes_explored of
                          (r, w'') \<Rightarrow> (Inr r, w'')))))"

section \<open>Invariant I1\<close>

text \<open>
  The invariant of section 3 of the specification: the keys of the dictionary are
  distinct, every element carries its key as id, and the cell at its stored position
  holds that id.
\<close>

definition consistent :: "world \<Rightarrow> bool" where
  "consistent w =
     (distinct (ids w)
      \<and> list_all (\<lambda>k. el_id (objs w k) = k
                      \<and> cells w (el_x (objs w k), el_y (objs w k)) = Occupied k) (ids w))"

section \<open>The probabilities of a chance node\<close>

text \<open>
  The weight that lines 310 to 318 give to a move of the interfering element \<open>other\<close>,
  and the probability that the loop of the chance node computes for a move: its weight
  in \<open>move_weights\<close> divided by \<open>total_weight\<close>, the sum of the values of the
  dictionary.
\<close>

definition weight_of :: "world \<Rightarrow> nat \<Rightarrow> pos \<Rightarrow> rat" where
  "weight_of w other p =
     (if p = (el_x (objs w other), el_y (objs w other))
      then (if el_y (objs w other) \<ge> height w - 3 then 3 else 3 / 2) else 1)"

definition total_weight_of :: "world \<Rightarrow> nat \<Rightarrow> pos list \<Rightarrow> rat" where
  "total_weight_of w other valid_moves = sum_list (map snd (move_weights w other valid_moves))"

definition probability_of :: "world \<Rightarrow> nat \<Rightarrow> pos list \<Rightarrow> pos \<Rightarrow> rat" where
  "probability_of w other valid_moves p =
     (case map_of (move_weights w other valid_moves) p of
        Some weight \<Rightarrow> weight / total_weight_of w other valid_moves
      | None \<Rightarrow> 0)"

section \<open>Example worlds\<close>

text \<open>
  Worlds for the concrete evaluations below. \<open>make_world\<close> builds a grid with a wall
  around its border, as the simulation does, and places the given elements.
\<close>

definition bordered_cells :: "int \<Rightarrow> int \<Rightarrow> element list \<Rightarrow> pos \<Rightarrow> cell" where
  "bordered_cells wd ht els p =
     (if fst p = 0 \<or> fst p = wd - 1 \<or> snd p = 0 \<or> snd p = ht - 1 then Wall
      else (case find (\<lambda>e. (el_x e, el_y e) = p) els of
              Some e \<Rightarrow> Occupied (el_id e) | None \<Rightarrow> Empty))"

definition make_world :: "int \<Rightarrow> int \<Rightarrow> element list \<Rightarrow> world" where
  "make_world wd ht els =
     \<lparr>width = wd, height = ht, cells = bordered_cells wd ht els, ids = map el_id els,
      objs = (\<lambda>k. case find (\<lambda>e. el_id e = k) els of
                     Some e \<Rightarrow> e
                   | None \<Rightarrow> \<lparr>el_id = k, el_x = 0, el_y = 0, target_x = None, target_y = None\<rparr>)\<rparr>"

text \<open>
  A 12 by 12 grid: element 0 in the bottom row at (5, 10) with target (5, 2), element 1
  two cells above it at (5, 8) with target (8, 8).
\<close>

definition arena :: world where
  "arena = make_world 12 12
     [\<lparr>el_id = 0, el_x = 5, el_y = 10, target_x = Some 5, target_y = Some 2\<rparr>,
      \<lparr>el_id = 1, el_x = 5, el_y = 8, target_x = Some 8, target_y = Some 8\<rparr>]"

text \<open>The same grid with element 1 directly above element 0, at (5, 9).\<close>

definition capped :: world where
  "capped = make_world 12 12
     [\<lparr>el_id = 0, el_x = 5, el_y = 10, target_x = Some 5, target_y = Some 2\<rparr>,
      \<lparr>el_id = 1, el_x = 5, el_y = 9, target_x = Some 8, target_y = Some 8\<rparr>]"

text \<open>Element 0 in the corner (1, 10), shut in by elements 1 and 2 and by the wall.\<close>

definition corner :: world where
  "corner = make_world 12 12
     [\<lparr>el_id = 0, el_x = 1, el_y = 10, target_x = Some 5, target_y = Some 2\<rparr>,
      \<lparr>el_id = 1, el_x = 1, el_y = 9, target_x = Some 1, target_y = Some 9\<rparr>,
      \<lparr>el_id = 2, el_x = 2, el_y = 10, target_x = Some 2, target_y = Some 10\<rparr>]"

text \<open>Two elements in one row, each nearer to the target of the other.\<close>

definition crossing :: world where
  "crossing = make_world 12 12
     [\<lparr>el_id = 0, el_x = 1, el_y = 1, target_x = Some 5, target_y = Some 1\<rparr>,
      \<lparr>el_id = 1, el_x = 4, el_y = 1, target_x = Some 2, target_y = Some 1\<rparr>]"

text \<open>
  Twenty elements in one row of a 24 by 12 grid; all stand on their targets except
  element 0, whose target is four rows up.
\<close>

definition nineteen_of_twenty :: world where
  "nineteen_of_twenty = make_world 24 12
     (map (\<lambda>k. \<lparr>el_id = k, el_x = int k + 1, el_y = 10, target_x = Some (int k + 1),
                  target_y = Some (if k = 0 then 6 else 10)\<rparr>) [0..<20])"

text \<open>A baseline pathfinder that finds no path.\<close>

definition no_path :: pathfinder where
  "no_path w start_x start_y goal_x goal_y topology = (None, 0)"

text \<open>
  A line test for the concrete evaluations: the computation of lines 454 to 464 without
  rounding. The evaluations below never consult it: where start and goal differ in both
  coordinates, no other element is a candidate for interference.
\<close>

definition unrounded_line_test :: line_test where
  "unrounded_line_test our_start_x our_start_y our_goal_x our_goal_y their_x their_y =
     (let dx = our_goal_x - our_start_x;
          dy = our_goal_y - our_start_y;
          t = max 0 (min 1 (rat_of_int ((their_x - our_start_x) * dx
                                        + (their_y - our_start_y) * dy)
                            / rat_of_int (dx * dx + dy * dy)));
          proj_x = rat_of_int our_start_x + t * rat_of_int dx;
          proj_y = rat_of_int our_start_y + t * rat_of_int dy;
          dist_to_line = \<bar>rat_of_int their_x - proj_x\<bar> + \<bar>rat_of_int their_y - proj_y\<bar>
      in dist_to_line \<le> 1)"

section \<open>Rules for evaluating the model on concrete worlds\<close>

text \<open>
  The concrete evaluations below run in the simplifier. These collections hold the
  definitions to unfold; \<open>let\<close> is evaluated with \<open>let_weak_cong\<close>, so that a bound
  value is computed before the body is entered.
\<close>

lemmas world_simps = arena_def capped_def corner_def crossing_def nineteen_of_twenty_def make_world_def
  bordered_cells_def no_path_def unrounded_line_test_def
lemmas grid_simps = is_valid_position_def is_wall_def is_element_def free_cell_def
  get_neighbors_def neighbor_offsets_def simulate_move_def add_element_def set_xy_def
  remove_element_def move_element_def
lemmas ext_simps = ext_lt_def ext_max_def ext_min_def
lemmas minimax_eval = minimax_pathfind_def minimax_fast_path_def minimax_best_first_move_def
  complete_path_def find_potential_adversaries_def adversary_candidate_def
  calculate_threat_level_def minimax_value.simps minimax_evaluate_state_def sign_towards_def
  py_range_def List.map_filter_def
lemmas expectimax_eval = expectimax_pathfind_def expectimax_fast_path_def complete_path_def
  find_interfering_elements_def interference_candidate_def calculate_interference_score_def
  expectimax_value.simps expectimax_evaluate_state_def sign_towards_def py_range_def
  List.map_filter_def chance_moves_def move_weights_def stay_weight_def has_target_def
  at_target_def

section \<open>simulation.py: the success metrics\<close>

lemma success_rate_fraction:
  "success_rate w =
     (if total_with_targets w = 0 then 0
      else of_nat (elements_at_target w) / of_nat (total_with_targets w))"
  by (simp add: success_rate_def)

text \<open>
  Claim C7. In independent mode \<open>success_rate\<close> is the fraction of the elements with a
  target that stand on it, and \<open>success\<close> should hold when that fraction is at least
  0.95. The code compares with \<open>success_rate > 0.95\<close>: with 19 of 20 elements on their
  targets the rate is exactly 95 percent and \<open>success\<close> is false, although the comment
  on that line of \<open>_transform_independent\<close> reads "consider success if 95% of elements
  reached targets".
\<close>

theorem success_false_at_95_percent:
  "total_with_targets nineteen_of_twenty = 20
   \<and> elements_at_target nineteen_of_twenty = 19
   \<and> success_rate nineteen_of_twenty = 95 / 100
   \<and> \<not> success nineteen_of_twenty"
  by (simp add: success_def success_rate_def total_with_targets_def elements_at_target_def
        elements_values_def has_target_def at_target_def world_simps upt_rec)

section \<open>simulation.py: target swapping\<close>













section \<open>simulation.py: one round of parallel moves\<close>

lemma commit_planned_moves_round:
  "commit_planned_moves planned taken ms w = (taken', ms', w') \<Longrightarrow>
     \<exists>round. ms' = ms @ round \<and> distinct (map to_pos round)
        \<and> set (map to_pos round) \<inter> taken = {} \<and> taken' = taken \<union> set (map to_pos round)"
proof (induction planned arbitrary: taken ms w)
  case Nil
  then show ?case by simp
next
  case (Cons a planned)
  obtain element pos where a: "a = (element, pos)" by (cases a)
  show ?case
  proof (cases "pos \<in> taken")
    case True
    with Cons a show ?thesis by simp
  next
    case False
    obtain ok w1 where mv: "move_element w element (fst pos) (snd pos) = (ok, w1)"
      by (cases "move_element w element (fst pos) (snd pos)")
    show ?thesis
    proof (cases ok)
      case True
      let ?m = "\<lparr>agentId = el_id (objs w1 element),
                 from_pos = (el_x (objs w1 element), el_y (objs w1 element)), to_pos = pos\<rparr>"
      from Cons.prems a False mv True
      have "commit_planned_moves planned (insert pos taken) (ms @ [?m]) w1 = (taken', ms', w')"
        by simp
      from Cons.IH[OF this] obtain round where
        r: "ms' = (ms @ [?m]) @ round" "distinct (map to_pos round)"
           "set (map to_pos round) \<inter> insert pos taken = {}"
           "taken' = insert pos taken \<union> set (map to_pos round)" by blast
      have "ms' = ms @ (?m # round)" using r(1) by simp
      moreover have "distinct (map to_pos (?m # round))" using r(2,3) by auto
      moreover have "set (map to_pos (?m # round)) \<inter> taken = {}" using r(3) False by auto
      moreover have "taken' = taken \<union> set (map to_pos (?m # round))" using r(4) by auto
      ultimately show ?thesis by blast
    next
      case False2: False
      from Cons.prems a False mv False2
      have "commit_planned_moves planned taken ms w1 = (taken', ms', w')" by simp
      from Cons.IH[OF this] show ?thesis .
    qed
  qed
qed

lemma reserve_moves_distinct:
  "reserve_moves w planned res valid = (res', valid') \<Longrightarrow>
     distinct (map snd valid) \<Longrightarrow> set (map snd valid) \<subseteq> dom res \<Longrightarrow>
     distinct (map snd valid') \<and> set (map snd valid') \<subseteq> dom res'"
proof (induction planned arbitrary: res valid)
  case Nil
  then show ?case by simp
next
  case (Cons a planned)
  obtain element next_pos where a: "a = (element, next_pos)" by (cases a)
  show ?case
  proof (cases "res next_pos = None")
    case True
    with Cons.prems a have
      "reserve_moves w planned (res(next_pos \<mapsto> el_id (objs w element)))
         (valid @ [(element, next_pos)]) = (res', valid')" by simp
    moreover have "distinct (map snd (valid @ [(element, next_pos)]))"
      using Cons.prems(2,3) True by (auto simp: dom_def)
    moreover have "set (map snd (valid @ [(element, next_pos)]))
        \<subseteq> dom (res(next_pos \<mapsto> el_id (objs w element)))"
      using Cons.prems(3) by auto
    ultimately show ?thesis by (rule Cons.IH)
  next
    case False
    with Cons.prems a have "reserve_moves w planned res valid = (res', valid')" by simp
    from Cons.IH[OF this Cons.prems(2,3)] show ?thesis .
  qed
qed

lemma execute_reserved_moves_sub:
  "execute_reserved_moves valid ms n w = (ms', n', w') \<Longrightarrow> distinct (map snd valid) \<Longrightarrow>
     \<exists>round. ms' = ms @ round \<and> distinct (map to_pos round)
         \<and> set (map to_pos round) \<subseteq> set (map snd valid)"
proof (induction valid arbitrary: ms n w)
  case Nil
  then show ?case by simp
next
  case (Cons a valid)
  obtain element next_pos where a: "a = (element, next_pos)" by (cases a)
  obtain ok w1 where mv: "move_element w element (fst next_pos) (snd next_pos) = (ok, w1)"
    by (cases "move_element w element (fst next_pos) (snd next_pos)")
  from Cons.prems(2) a have d: "distinct (map snd valid)" "next_pos \<notin> set (map snd valid)"
    by auto
  show ?case
  proof (cases ok)
    case True
    let ?m = "\<lparr>agentId = el_id (objs w1 element),
               from_pos = (el_x (objs w element), el_y (objs w element)), to_pos = next_pos\<rparr>"
    from Cons.prems(1) a mv True
    have "execute_reserved_moves valid (ms @ [?m]) (n + 1) w1 = (ms', n', w')"
      by (simp add: Let_def)
    from Cons.IH[OF this d(1)] obtain round where
      r: "ms' = (ms @ [?m]) @ round" "distinct (map to_pos round)"
         "set (map to_pos round) \<subseteq> set (map snd valid)" by blast
    have "ms' = ms @ (?m # round)" using r(1) by simp
    moreover have "distinct (map to_pos (?m # round))" using r(2,3) d(2) by auto
    moreover have "set (map to_pos (?m # round)) \<subseteq> set (map snd (a # valid))"
      using r(3) a by auto
    ultimately show ?thesis by blast
  next
    case False
    from Cons.prems(1) a mv False
    have "execute_reserved_moves valid ms n w1 = (ms', n', w')" by (simp add: Let_def)
    from Cons.IH[OF this d(1)] obtain round where
      r: "ms' = ms @ round" "distinct (map to_pos round)"
         "set (map to_pos round) \<subseteq> set (map snd valid)" by blast
    then show ?thesis by auto
  qed
qed

text \<open>
  Claim C2. In one round of parallel movement, in the centralized and in the
  independent mode, the moves that the round appends to the move log have pairwise
  different destination cells.
\<close>

theorem reservation_uniqueness:
  "(\<exists>round. fst (snd (commit_planned_moves planned_moves {} total_moves w)) = total_moves @ round
        \<and> distinct (map to_pos round))
   \<and> (\<exists>round. fst (independent_round moves_this_round total_moves w) = total_moves @ round
        \<and> distinct (map to_pos round))"
proof
  obtain t m w' where c: "commit_planned_moves planned_moves {} total_moves w = (t, m, w')"
    by (cases "commit_planned_moves planned_moves {} total_moves w")
  from commit_planned_moves_round[OF c]
  show "\<exists>round. fst (snd (commit_planned_moves planned_moves {} total_moves w)) = total_moves @ round
        \<and> distinct (map to_pos round)" using c by auto
next
  obtain res valid where r: "reserve_moves w moves_this_round Map.empty [] = (res, valid)"
    by (cases "reserve_moves w moves_this_round Map.empty []")
  from reserve_moves_distinct[OF r] have d: "distinct (map snd valid)" by simp
  obtain m n w' where e: "execute_reserved_moves valid total_moves 0 w = (m, n, w')"
    by (cases "execute_reserved_moves valid total_moves 0 w")
  from execute_reserved_moves_sub[OF e d]
  show "\<exists>round. fst (independent_round moves_this_round total_moves w) = total_moves @ round
        \<and> distinct (map to_pos round)"
    using r e by (auto simp: independent_round_def)
qed

text \<open>
  In \<open>arena\<close> elements 0 and 1 both plan to enter (5, 9): in either mode the round
  commits the move of element 0 alone.
\<close>

theorem reservation_uniqueness_witness:
  "fst (snd (commit_planned_moves [(0, (5, 9)), (1, (5, 9))] {} [] arena))
     = [\<lparr>agentId = 0, from_pos = (5, 9), to_pos = (5, 9)\<rparr>]
   \<and> fst (independent_round [(0, (5, 9)), (1, (5, 9))] [] arena)
     = [\<lparr>agentId = 0, from_pos = (5, 10), to_pos = (5, 9)\<rparr>]
   \<and> (\<exists>round. fst (snd (commit_planned_moves [(0, (5, 9)), (1, (5, 9))] {} [] arena)) = [] @ round
        \<and> distinct (map to_pos round))
   \<and> (\<exists>round. fst (independent_round [(0, (5, 9)), (1, (5, 9))] [] arena) = [] @ round
        \<and> distinct (map to_pos round))"
proof -
  have a: "fst (snd (commit_planned_moves [(0, (5, 9)), (1, (5, 9))] {} [] arena))
     = [\<lparr>agentId = 0, from_pos = (5, 9), to_pos = (5, 9)\<rparr>]"
    by (simp add: world_simps grid_simps)
  have b: "fst (independent_round [(0, (5, 9)), (1, (5, 9))] [] arena)
     = [\<lparr>agentId = 0, from_pos = (5, 10), to_pos = (5, 9)\<rparr>]"
    by (simp add: independent_round_def world_simps grid_simps)
  from a b reservation_uniqueness[of "[(0, (5, 9)), (1, (5, 9))]" "[]" arena
         "[(0, (5, 9)), (1, (5, 9))]"]
  show ?thesis by blast
qed

section \<open>The pathfinders: preconditions and the stuck element\<close>

text \<open>
  Claim C6. Both pathfinders return \<open>(None, 0)\<close> when the start or the goal is out of
  bounds or a wall, and the one-cell path of the start (with one node explored) when
  start and goal are the same valid cell that is not a wall; they raise nothing and
  leave the world as it was.
\<close>

theorem pathfind_endpoint_checks:
  "(\<not> is_valid_position w start_x start_y \<or> \<not> is_valid_position w goal_x goal_y
      \<or> is_wall w start_x start_y \<or> is_wall w goal_x goal_y
    \<longrightarrow> minimax_pathfind astar rnd_unit rnd_pick w start_x start_y goal_x goal_y element_id
            topology max_depth = (Inr (None, 0), w)
      \<and> expectimax_pathfind astar near_line rnd_pick w start_x start_y goal_x goal_y
            element_id topology max_depth = (Inr (None, 0), w))
   \<and> (is_valid_position w start_x start_y \<and> \<not> is_wall w start_x start_y
    \<longrightarrow> minimax_pathfind astar rnd_unit rnd_pick w start_x start_y start_x start_y element_id
            topology max_depth = (Inr (Some [(start_x, start_y)], 1), w)
      \<and> expectimax_pathfind astar near_line rnd_pick w start_x start_y start_x start_y
            element_id topology max_depth = (Inr (Some [(start_x, start_y)], 1), w))"
  by (simp add: minimax_pathfind_def expectimax_pathfind_def)

text \<open>
  In \<open>arena\<close>: a goal outside the grid, a start on the wall, and start equal to goal.
\<close>

theorem pathfind_endpoint_checks_witness:
  "\<not> is_valid_position arena 5 12
   \<and> minimax_pathfind no_path (1 / 2) 0 arena 5 10 5 12 0 VonNeumann 2 = (Inr (None, 0), arena)
   \<and> expectimax_pathfind no_path unrounded_line_test 0 arena 5 10 5 12 0 VonNeumann 2
       = (Inr (None, 0), arena)
   \<and> is_wall arena 5 11
   \<and> minimax_pathfind no_path (1 / 2) 0 arena 5 11 5 2 0 VonNeumann 2 = (Inr (None, 0), arena)
   \<and> expectimax_pathfind no_path unrounded_line_test 0 arena 5 11 5 2 0 VonNeumann 2
       = (Inr (None, 0), arena)
   \<and> is_valid_position arena 5 10 \<and> \<not> is_wall arena 5 10
   \<and> minimax_pathfind no_path (1 / 2) 0 arena 5 10 5 10 0 VonNeumann 2
       = (Inr (Some [(5, 10)], 1), arena)
   \<and> expectimax_pathfind no_path unrounded_line_test 0 arena 5 10 5 10 0 VonNeumann 2
       = (Inr (Some [(5, 10)], 1), arena)"
proof -
  have a: "\<not> is_valid_position arena 5 12" "is_wall arena 5 11"
    "is_valid_position arena 5 10" "\<not> is_wall arena 5 10"
    by (simp_all add: world_simps grid_simps)
  from a
    pathfind_endpoint_checks[where w = arena and start_x = 5 and start_y = 10 and goal_x = 5
      and goal_y = 12 and astar = no_path and near_line = unrounded_line_test
      and rnd_unit = "1 / 2" and rnd_pick = 0 and element_id = 0 and topology = VonNeumann
      and max_depth = 2]
    pathfind_endpoint_checks[where w = arena and start_x = 5 and start_y = 11 and goal_x = 5
      and goal_y = 2 and astar = no_path and near_line = unrounded_line_test
      and rnd_unit = "1 / 2" and rnd_pick = 0 and element_id = 0 and topology = VonNeumann
      and max_depth = 2]
  show ?thesis by simp
qed

text \<open>
  Claim C10. When start and goal are valid cells that are not walls, start differs from
  goal, the element exists and every neighbour of the start is a wall or occupied, both
  pathfinders return the one-cell path of the start with one node explored.
\<close>

theorem pathfind_waits_when_shut_in:
  assumes "is_valid_position w start_x start_y" "is_valid_position w goal_x goal_y"
    and "\<not> is_wall w start_x start_y" "\<not> is_wall w goal_x goal_y"
    and "(start_x, start_y) \<noteq> (goal_x, goal_y)"
    and "element_id \<in> set (ids w)"
    and "\<forall>p\<in>set (get_neighbors w start_x start_y topology).
            is_wall w (fst p) (snd p) \<or> is_element w (fst p) (snd p)"
  shows "minimax_pathfind astar rnd_unit rnd_pick w start_x start_y goal_x goal_y element_id
           topology max_depth = (Inr (Some [(start_x, start_y)], 1), w)
       \<and> expectimax_pathfind astar near_line rnd_pick w start_x start_y goal_x goal_y
           element_id topology max_depth = (Inr (Some [(start_x, start_y)], 1), w)"
proof -
  have "filter (free_cell w) (get_neighbors w start_x start_y topology) = []"
    using assms(7) by (auto simp: filter_empty_conv free_cell_def)
  with assms(1-6) show ?thesis
    by (auto simp: minimax_pathfind_def expectimax_pathfind_def minimax_fast_path_def
          expectimax_fast_path_def Let_def)
qed

text \<open>
  In \<open>corner\<close> element 0 has the wall on two sides and elements on the other two.
\<close>

theorem pathfind_waits_when_shut_in_witness:
  "is_valid_position corner 1 10 \<and> is_valid_position corner 5 2
   \<and> \<not> is_wall corner 1 10 \<and> \<not> is_wall corner 5 2 \<and> 0 \<in> set (ids corner)
   \<and> get_neighbors corner 1 10 VonNeumann = [(1, 9), (0, 10), (2, 10), (1, 11)]
   \<and> is_element corner 1 9 \<and> is_wall corner 0 10 \<and> is_element corner 2 10 \<and> is_wall corner 1 11
   \<and> minimax_pathfind no_path (1 / 2) 0 corner 1 10 5 2 0 VonNeumann 2
       = (Inr (Some [(1, 10)], 1), corner)
   \<and> expectimax_pathfind no_path unrounded_line_test 0 corner 1 10 5 2 0 VonNeumann 2
       = (Inr (Some [(1, 10)], 1), corner)"
proof -
  have a: "is_valid_position corner 1 10" "is_valid_position corner 5 2"
    "\<not> is_wall corner 1 10" "\<not> is_wall corner 5 2" "0 \<in> set (ids corner)"
    by (simp_all add: world_simps grid_simps)
  have n: "get_neighbors corner 1 10 VonNeumann = [(1, 9), (0, 10), (2, 10), (1, 11)]"
    by (simp add: world_simps grid_simps)
  have b: "is_element corner 1 9" "is_wall corner 0 10" "is_element corner 2 10"
    "is_wall corner 1 11" by (simp_all add: world_simps grid_simps)
  have c: "\<forall>p\<in>set (get_neighbors corner 1 10 VonNeumann).
            is_wall corner (fst p) (snd p) \<or> is_element corner (fst p) (snd p)"
    using b by (simp add: n)
  from pathfind_waits_when_shut_in[OF a(1,2,3,4) _ a(5) c, where astar = no_path
      and near_line = unrounded_line_test and rnd_unit = "1 / 2" and rnd_pick = 0
      and max_depth = 2] a n b
  show ?thesis by simp
qed

section \<open>The pathfinders: the escape bias of the bottom rows\<close>

text \<open>
  Claim C4 says that an agent in the bottom 3 rows with a legal upward first move gets
  an upward first move at once from both pathfinders, without a search. In \<open>arena\<close>
  under von Neumann topology element 0 stands in the bottom row at (5, 10), the cell
  (5, 9) above it is free, and element 1 stands further up in its column. The escape
  bias of \<open>minimax_pathfind\<close> then returns nothing, the search runs over the three
  first moves, and the path returned starts sideways, to (4, 10).
\<close>

theorem bottom_row_search_instead_of_escape:
  "height arena - 3 \<le> el_y (objs arena 0)
   \<and> (5, 9) \<in> set (filter (free_cell arena) (get_neighbors arena 5 10 VonNeumann))
   \<and> minimax_fast_path 0 arena 5 10 2 VonNeumann True
        (filter (free_cell arena) (get_neighbors arena 5 10 VonNeumann)) = None
   \<and> fst (minimax_pathfind no_path (1 / 2) 0 arena 5 10 5 2 0 VonNeumann 2)
        = Inr (Some [(5, 10), (4, 10)], 3)"
  by (simp add: minimax_eval world_simps grid_simps ext_simps Let_def cong: let_weak_cong)

lemma expectimax_fast_path_upward:
  assumes up: "upward_moves = filter (\<lambda>p. snd p < start_y) valid_moves"
    and ne: "upward_moves \<noteq> []"
  shows "\<exists>m\<in>set upward_moves.
           expectimax_fast_path rnd_pick start_x start_y goal_x topology True valid_moves
             = Some (Some [(start_x, start_y), m], 1)"
proof -
  let ?d = "filter (\<lambda>p. (goal_x - start_x > 0 \<and> fst p > start_x)
                        \<or> (goal_x - start_x < 0 \<and> fst p < start_x)) upward_moves"
  have vne: "valid_moves \<noteq> []" using ne up by auto
  have hd_in: "hd upward_moves \<in> set upward_moves" using ne by simp
  show ?thesis
  proof (cases "topology = Moore \<and> length upward_moves > 1")
    case True
    show ?thesis
    proof (cases "\<bar>goal_x - start_x\<bar> > 1 \<and> ?d \<noteq> []")
      case d: True
      then have "?d ! (rnd_pick mod length ?d) \<in> set ?d" by (intro nth_mem) simp
      then have "?d ! (rnd_pick mod length ?d) \<in> set upward_moves" by auto
      moreover have "expectimax_fast_path rnd_pick start_x start_y goal_x topology True valid_moves
             = Some (Some [(start_x, start_y), ?d ! (rnd_pick mod length ?d)], 1)"
        unfolding expectimax_fast_path_def Let_def up[symmetric] using True d ne vne by simp
      ultimately show ?thesis by blast
    next
      case d: False
      have "expectimax_fast_path rnd_pick start_x start_y goal_x topology True valid_moves
             = Some (Some [(start_x, start_y), hd upward_moves], 1)"
        unfolding expectimax_fast_path_def Let_def up[symmetric] using True d ne vne by auto
      with hd_in show ?thesis by blast
    qed
  next
    case False
    show ?thesis
    proof (cases "(start_x, start_y - 1) \<in> set upward_moves")
      case s: True
      have "expectimax_fast_path rnd_pick start_x start_y goal_x topology True valid_moves
             = Some (Some [(start_x, start_y), (start_x, start_y - 1)], 1)"
        unfolding expectimax_fast_path_def Let_def up[symmetric] using False s ne vne by auto
      with s show ?thesis by blast
    next
      case s: False
      have "expectimax_fast_path rnd_pick start_x start_y goal_x topology True valid_moves
             = Some (Some [(start_x, start_y), hd upward_moves], 1)"
        unfolding expectimax_fast_path_def Let_def up[symmetric] using False s ne vne by auto
      with hd_in show ?thesis by blast
    qed
  qed
qed

text \<open>
  Claim C4, amended. For an element whose row is within the bottom 3 rows of the grid
  and that has a legal upward first move, \<open>expectimax_pathfind\<close> returns at once the
  start followed by an upward move, with one node explored. \<open>minimax_pathfind\<close> does so
  when its own test for the bottom rows holds (row 9 or below, which is the bottom 3
  rows of a grid of height 12) and no element stands in the column of the start between
  the row above the start and the row of the goal: it then returns the first upward
  move. When an element does stand there, it returns a random upward move with one node
  explored if the topology is Moore and there are at least two upward moves. In the
  remaining case it draws a random number: below 0.3 it returns the start followed by
  a random upward move with no node explored, again without a search; from 0.3 on it
  runs the loop of the search over all legal first moves and returns the start followed
  by the move which that loop chooses, with the number of nodes which it counts.
\<close>

theorem escape_fast_path:
  assumes "is_valid_position w start_x start_y" "is_valid_position w goal_x goal_y"
    and "\<not> is_wall w start_x start_y" "\<not> is_wall w goal_x goal_y"
    and "(start_x, start_y) \<noteq> (goal_x, goal_y)"
    and "element_id \<in> set (ids w)"
    and "height w - 3 \<le> el_y (objs w element_id)"
    and "upward_moves = filter (\<lambda>p. snd p < start_y)
                          (filter (free_cell w) (get_neighbors w start_x start_y topology))"
    and "upward_moves \<noteq> []"
  shows "(\<exists>m\<in>set upward_moves.
            expectimax_pathfind astar near_line rnd_pick w start_x start_y goal_x goal_y
              element_id topology max_depth = (Inr (Some [(start_x, start_y), m], 1), w))
       \<and> (9 \<le> el_y (objs w element_id)
            \<and> \<not> list_ex (\<lambda>y. is_element w start_x y) (py_range (start_y - 1) (goal_y - 1) (- 1))
          \<longrightarrow> minimax_pathfind astar rnd_unit rnd_pick w start_x start_y goal_x goal_y element_id
                topology max_depth = (Inr (Some [(start_x, start_y), hd upward_moves], 1), w))
       \<and> (9 \<le> el_y (objs w element_id)
            \<and> list_ex (\<lambda>y. is_element w start_x y) (py_range (start_y - 1) (goal_y - 1) (- 1))
            \<and> topology = Moore \<and> length upward_moves > 1
          \<longrightarrow> (\<exists>m\<in>set upward_moves.
                 minimax_pathfind astar rnd_unit rnd_pick w start_x start_y goal_x goal_y
                   element_id topology max_depth = (Inr (Some [(start_x, start_y), m], 1), w)))
       \<and> (9 \<le> el_y (objs w element_id)
            \<and> list_ex (\<lambda>y. is_element w start_x y) (py_range (start_y - 1) (goal_y - 1) (- 1))
            \<and> \<not> (topology = Moore \<and> length upward_moves > 1)
            \<and> rnd_unit < 3 / 10
          \<longrightarrow> (\<exists>m\<in>set upward_moves.
                 minimax_pathfind astar rnd_unit rnd_pick w start_x start_y goal_x goal_y
                   element_id topology max_depth = (Inr (Some [(start_x, start_y), m], 0), w)))
       \<and> (9 \<le> el_y (objs w element_id)
            \<and> list_ex (\<lambda>y. is_element w start_x y) (py_range (start_y - 1) (goal_y - 1) (- 1))
            \<and> \<not> (topology = Moore \<and> length upward_moves > 1)
            \<and> \<not> rnd_unit < 3 / 10
          \<longrightarrow> minimax_pathfind astar rnd_unit rnd_pick w start_x start_y goal_x goal_y element_id
                topology max_depth =
              (case minimax_root_loop element_id
                      (find_potential_adversaries w element_id start_x start_y goal_x goal_y True)
                      (if length (ids w) > 10 then max 1 (max_depth - 1) else max_depth)
                      topology goal_x goal_y True start_y
                      (el_x (objs w element_id)) (el_y (objs w element_id))
                      (filter (free_cell w) (get_neighbors w start_x start_y topology))
                      NegInf None NegInf 0 w of
                 (Inl err, w') \<Rightarrow> (Inl err, w')
               | (Inr (best_move, nodes_explored), w') \<Rightarrow>
                   (Inr (map_option (\<lambda>best. [(start_x, start_y), best]) best_move,
                         nodes_explored), w')))"
proof (intro conjI impI)
  define valid_moves where
    "valid_moves = filter (free_cell w) (get_neighbors w start_x start_y topology)"
  have up: "upward_moves = filter (\<lambda>p. snd p < start_y) valid_moves"
    using assms(8) by (simp add: valid_moves_def)
  have vne: "valid_moves \<noteq> []" using assms(9) up by auto
  have hd_in: "hd upward_moves \<in> set upward_moves" using assms(9) by simp
  have pre: "(start_x = goal_x \<and> start_y = goal_y) = False" using assms(5) by simp
  obtain r where fp: "expectimax_fast_path rnd_pick start_x start_y goal_x topology True valid_moves
                        = Some (Some [(start_x, start_y), r], 1)" and r: "r \<in> set upward_moves"
    using expectimax_fast_path_upward[OF up assms(9)] by blast
  have "expectimax_pathfind astar near_line rnd_pick w start_x start_y goal_x goal_y element_id
          topology max_depth = (Inr (Some [(start_x, start_y), r], 1), w)"
    using fp assms(1-4,6,7) pre
    by (simp add: expectimax_pathfind_def Let_def valid_moves_def)
  with r show "\<exists>m\<in>set upward_moves.
            expectimax_pathfind astar near_line rnd_pick w start_x start_y goal_x goal_y
              element_id topology max_depth = (Inr (Some [(start_x, start_y), m], 1), w)" by blast
next
  define valid_moves where
    "valid_moves = filter (free_cell w) (get_neighbors w start_x start_y topology)"
  have up: "upward_moves = filter (\<lambda>p. snd p < start_y) valid_moves"
    using assms(8) by (simp add: valid_moves_def)
  have vne: "valid_moves \<noteq> []" using assms(9) up by auto
  have pre: "(start_x = goal_x \<and> start_y = goal_y) = False" using assms(5) by simp
  assume a: "9 \<le> el_y (objs w element_id)
            \<and> \<not> list_ex (\<lambda>y. is_element w start_x y) (py_range (start_y - 1) (goal_y - 1) (- 1))"
  then have "minimax_fast_path rnd_pick w start_x start_y goal_y topology True valid_moves
               = Some (Some [(start_x, start_y), hd upward_moves], 1)"
    using assms(9) vne up by (simp add: minimax_fast_path_def Let_def)
  then show "minimax_pathfind astar rnd_unit rnd_pick w start_x start_y goal_x goal_y element_id
                topology max_depth = (Inr (Some [(start_x, start_y), hd upward_moves], 1), w)"
    using assms(1-4,6) pre a by (simp add: minimax_pathfind_def Let_def valid_moves_def)
next
  define valid_moves where
    "valid_moves = filter (free_cell w) (get_neighbors w start_x start_y topology)"
  have up: "upward_moves = filter (\<lambda>p. snd p < start_y) valid_moves"
    using assms(8) by (simp add: valid_moves_def)
  have vne: "valid_moves \<noteq> []" using assms(9) up by auto
  have pre: "(start_x = goal_x \<and> start_y = goal_y) = False" using assms(5) by simp
  assume a: "9 \<le> el_y (objs w element_id)
            \<and> list_ex (\<lambda>y. is_element w start_x y) (py_range (start_y - 1) (goal_y - 1) (- 1))
            \<and> topology = Moore \<and> length upward_moves > 1"
  let ?m = "upward_moves ! (rnd_pick mod length upward_moves)"
  have m: "?m \<in> set upward_moves" using assms(9) by (intro nth_mem) simp
  from a have "minimax_fast_path rnd_pick w start_x start_y goal_y topology True valid_moves
               = Some (Some [(start_x, start_y), ?m], 1)"
    using assms(9) vne up by (simp add: minimax_fast_path_def Let_def)
  then have "minimax_pathfind astar rnd_unit rnd_pick w start_x start_y goal_x goal_y
                   element_id topology max_depth = (Inr (Some [(start_x, start_y), ?m], 1), w)"
    using assms(1-4,6) pre a by (simp add: minimax_pathfind_def Let_def valid_moves_def)
  with m show "\<exists>m\<in>set upward_moves.
                 minimax_pathfind astar rnd_unit rnd_pick w start_x start_y goal_x goal_y
                   element_id topology max_depth = (Inr (Some [(start_x, start_y), m], 1), w)"
    by blast
next
  define valid_moves where
    "valid_moves = filter (free_cell w) (get_neighbors w start_x start_y topology)"
  have up: "upward_moves = filter (\<lambda>p. snd p < start_y) valid_moves"
    using assms(8) by (simp add: valid_moves_def)
  have vne: "valid_moves \<noteq> []" using assms(9) up by auto
  have pre: "(start_x = goal_x \<and> start_y = goal_y) = False" using assms(5) by simp
  assume a: "9 \<le> el_y (objs w element_id)
            \<and> list_ex (\<lambda>y. is_element w start_x y) (py_range (start_y - 1) (goal_y - 1) (- 1))
            \<and> \<not> (topology = Moore \<and> length upward_moves > 1)
            \<and> rnd_unit < 3 / 10"
  let ?m = "upward_moves ! (rnd_pick mod length upward_moves)"
  have m: "?m \<in> set upward_moves" using assms(9) by (intro nth_mem) simp
  from a have fp: "minimax_fast_path rnd_pick w start_x start_y goal_y topology True valid_moves
               = None"
    using assms(9) vne up by (auto simp: minimax_fast_path_def Let_def)
  have bm: "minimax_best_first_move rnd_unit rnd_pick element_id adversaries depth' topology
              goal_x goal_y True start_y ox oy valid_moves w = (Inr (Some ?m, 0), w)"
    for adversaries depth' ox oy
    using a assms(9) up by (simp add: minimax_best_first_move_def Let_def)
  have "minimax_pathfind astar rnd_unit rnd_pick w start_x start_y goal_x goal_y
                   element_id topology max_depth = (Inr (Some [(start_x, start_y), ?m], 0), w)"
    using assms(1-4,6) pre a fp vne bm
    by (simp add: minimax_pathfind_def complete_path_def Let_def valid_moves_def[symmetric])
  with m show "\<exists>m\<in>set upward_moves.
                 minimax_pathfind astar rnd_unit rnd_pick w start_x start_y goal_x goal_y
                   element_id topology max_depth = (Inr (Some [(start_x, start_y), m], 0), w)"
    by blast
next
  define valid_moves where
    "valid_moves = filter (free_cell w) (get_neighbors w start_x start_y topology)"
  have up: "upward_moves = filter (\<lambda>p. snd p < start_y) valid_moves"
    using assms(8) by (simp add: valid_moves_def)
  have vne: "valid_moves \<noteq> []" using assms(9) up by auto
  have pre: "(start_x = goal_x \<and> start_y = goal_y) = False" using assms(5) by simp
  assume a: "9 \<le> el_y (objs w element_id)
            \<and> list_ex (\<lambda>y. is_element w start_x y) (py_range (start_y - 1) (goal_y - 1) (- 1))
            \<and> \<not> (topology = Moore \<and> length upward_moves > 1)
            \<and> \<not> rnd_unit < 3 / 10"
  from a have fp: "minimax_fast_path rnd_pick w start_x start_y goal_y topology True valid_moves
               = None"
    using assms(9) vne up by (auto simp: minimax_fast_path_def Let_def)
  define adversaries where "adversaries =
    find_potential_adversaries w element_id start_x start_y goal_x goal_y True"
  define depth' where
    "depth' = (if length (ids w) > 10 then max 1 (max_depth - 1) else max_depth)"
  define search where "search =
    minimax_root_loop element_id adversaries depth' topology goal_x goal_y True start_y
      (el_x (objs w element_id)) (el_y (objs w element_id)) valid_moves NegInf None NegInf 0 w"
  have bm: "minimax_best_first_move rnd_unit rnd_pick element_id adversaries depth' topology
              goal_x goal_y True start_y (el_x (objs w element_id)) (el_y (objs w element_id))
              valid_moves w = search"
    using a by (simp add: minimax_best_first_move_def search_def Let_def)
  have cp: "complete_path astar w' element_id start_x start_y goal_x goal_y topology True
              best_move nodes
            = ((map_option (\<lambda>best. [(start_x, start_y), best]) best_move, nodes), w')"
    for w' best_move nodes
    by (simp add: complete_path_def split: option.split)
  have brp: "(9 \<le> el_y (objs w element_id)) = True" using a by simp
  have eq: "minimax_pathfind astar rnd_unit rnd_pick w start_x start_y goal_x goal_y element_id
              topology max_depth =
            (case search of
               (Inl err, w') \<Rightarrow> (Inl err, w')
             | (Inr (best_move, nodes_explored), w') \<Rightarrow>
                 (case complete_path astar w' element_id start_x start_y goal_x goal_y topology
                         True best_move nodes_explored of
                    (r, w'') \<Rightarrow> (Inr r, w'')))"
    unfolding minimax_pathfind_def Let_def brp valid_moves_def[symmetric]
      adversaries_def[symmetric] depth'_def[symmetric]
    by (simp add: assms(1-4,6) pre fp vne bm)
  obtain sr w1 where s: "search = (sr, w1)" by (cases search)
  have "minimax_pathfind astar rnd_unit rnd_pick w start_x start_y goal_x goal_y element_id
          topology max_depth =
        (case search of
           (Inl err, w') \<Rightarrow> (Inl err, w')
         | (Inr (best_move, nodes_explored), w') \<Rightarrow>
             (Inr (map_option (\<lambda>best. [(start_x, start_y), best]) best_move,
                   nodes_explored), w'))"
  proof (cases sr)
    case (Inl err)
    with eq s show ?thesis by simp
  next
    case (Inr bn)
    obtain best_move nodes where "bn = (best_move, nodes)" by (cases bn)
    with eq s Inr cp show ?thesis by simp
  qed
  then show "minimax_pathfind astar rnd_unit rnd_pick w start_x start_y goal_x goal_y element_id
                topology max_depth =
              (case minimax_root_loop element_id
                      (find_potential_adversaries w element_id start_x start_y goal_x goal_y True)
                      (if length (ids w) > 10 then max 1 (max_depth - 1) else max_depth)
                      topology goal_x goal_y True start_y
                      (el_x (objs w element_id)) (el_y (objs w element_id))
                      (filter (free_cell w) (get_neighbors w start_x start_y topology))
                      NegInf None NegInf 0 w of
                 (Inl err, w') \<Rightarrow> (Inl err, w')
               | (Inr (best_move, nodes_explored), w') \<Rightarrow>
                   (Inr (map_option (\<lambda>best. [(start_x, start_y), best]) best_move,
                         nodes_explored), w'))"
    by (simp only: search_def adversaries_def depth'_def valid_moves_def)
qed

text \<open>
  In \<open>arena\<close> under Moore topology element 0 has three upward moves and its column is
  blocked; in \<open>corner\<close> element 2 has a free column above it. In \<open>arena\<close> under von
  Neumann topology element 0 has one upward move and its column is blocked: with the draw
  0.1 it moves up with no node explored, with the draw 0.5 the search runs over its three
  first moves.
\<close>

theorem escape_fast_path_witness:
  "is_valid_position arena 5 10 \<and> is_valid_position arena 5 2
   \<and> \<not> is_wall arena 5 10 \<and> \<not> is_wall arena 5 2 \<and> 0 \<in> set (ids arena)
   \<and> height arena - 3 \<le> el_y (objs arena 0) \<and> 9 \<le> el_y (objs arena 0)
   \<and> filter (\<lambda>p. snd p < 10) (filter (free_cell arena) (get_neighbors arena 5 10 Moore))
       = [(5, 9), (4, 9), (6, 9)]
   \<and> list_ex (\<lambda>y. is_element arena 5 y) (py_range (10 - 1) (2 - 1) (- 1))
   \<and> (\<exists>m\<in>set [(5, 9), (4, 9), (6, 9)].
         expectimax_pathfind no_path unrounded_line_test 1 arena 5 10 5 2 0 Moore 2
           = (Inr (Some [(5, 10), m], 1), arena))
   \<and> (\<exists>m\<in>set [(5, 9), (4, 9), (6, 9)].
         minimax_pathfind no_path (1 / 2) 1 arena 5 10 5 2 0 Moore 2
           = (Inr (Some [(5, 10), m], 1), arena))
   \<and> is_valid_position corner 2 10 \<and> \<not> is_wall corner 2 10 \<and> 2 \<in> set (ids corner)
   \<and> height corner - 3 \<le> el_y (objs corner 2) \<and> 9 \<le> el_y (objs corner 2)
   \<and> filter (\<lambda>p. snd p < 10) (filter (free_cell corner) (get_neighbors corner 2 10 VonNeumann))
       = [(2, 9)]
   \<and> \<not> list_ex (\<lambda>y. is_element corner 2 y) (py_range (10 - 1) (2 - 1) (- 1))
   \<and> minimax_pathfind no_path (1 / 2) 1 corner 2 10 5 2 2 VonNeumann 2
        = (Inr (Some [(2, 10), (2, 9)], 1), corner)
   \<and> filter (\<lambda>p. snd p < 10) (filter (free_cell arena) (get_neighbors arena 5 10 VonNeumann))
       = [(5, 9)]
   \<and> minimax_pathfind no_path (1 / 10) 0 arena 5 10 5 2 0 VonNeumann 2
        = (Inr (Some [(5, 10), (5, 9)], 0), arena)
   \<and> minimax_pathfind no_path (1 / 2) 0 arena 5 10 5 2 0 VonNeumann 2
        = (case minimax_root_loop 0 (find_potential_adversaries arena 0 5 10 5 2 True) 2
                  VonNeumann 5 2 True 10 5 10 [(5, 9), (4, 10), (6, 10)] NegInf None NegInf 0
                  arena of
             (Inl err, w') \<Rightarrow> (Inl err, w')
           | (Inr (best_move, nodes_explored), w') \<Rightarrow>
               (Inr (map_option (\<lambda>best. [(5, 10), best]) best_move, nodes_explored), w'))"
proof -
  have a: "is_valid_position arena 5 10" "is_valid_position arena 5 2"
    "\<not> is_wall arena 5 10" "\<not> is_wall arena 5 2" "0 \<in> set (ids arena)"
    "height arena - 3 \<le> el_y (objs arena 0)" "9 \<le> el_y (objs arena 0)"
    by (simp_all add: world_simps grid_simps)
  have au: "[(5, 9), (4, 9), (6, 9)]
      = filter (\<lambda>p. snd p < 10) (filter (free_cell arena) (get_neighbors arena 5 10 Moore))"
    by (simp add: world_simps grid_simps)
  have av: "[(5, 9)]
      = filter (\<lambda>p. snd p < 10) (filter (free_cell arena) (get_neighbors arena 5 10 VonNeumann))"
    by (simp add: world_simps grid_simps)
  have ab: "list_ex (\<lambda>y. is_element arena 5 y) (py_range (10 - 1) (2 - 1) (- 1))"
    by (simp add: py_range_def world_simps grid_simps)
  have ae: "length (ids arena) = 2" "el_x (objs arena 0) = 5" "el_y (objs arena 0) = 10"
    "filter (free_cell arena) (get_neighbors arena 5 10 VonNeumann) = [(5, 9), (4, 10), (6, 10)]"
    by (simp_all add: world_simps grid_simps)
  have c: "is_valid_position corner 2 10" "is_valid_position corner 5 2"
    "\<not> is_wall corner 2 10" "\<not> is_wall corner 5 2" "2 \<in> set (ids corner)"
    "height corner - 3 \<le> el_y (objs corner 2)" "9 \<le> el_y (objs corner 2)"
    by (simp_all add: world_simps grid_simps)
  have cu: "[(2, 9)]
      = filter (\<lambda>p. snd p < 10) (filter (free_cell corner) (get_neighbors corner 2 10 VonNeumann))"
    by (simp add: world_simps grid_simps)
  have cb: "\<not> list_ex (\<lambda>y. is_element corner 2 y) (py_range (10 - 1) (2 - 1) (- 1))"
    by (simp add: py_range_def world_simps grid_simps)
  note t1 = escape_fast_path[OF a(1,2,3,4) _ a(5,6) au, where astar = no_path
      and near_line = unrounded_line_test and rnd_pick = 1 and max_depth = 2
      and rnd_unit = "1 / 2"]
  note t2 = escape_fast_path[OF c(1,2,3,4) _ c(5,6) cu, where astar = no_path
      and near_line = unrounded_line_test and rnd_pick = 1 and max_depth = 2
      and rnd_unit = "1 / 2"]
  note t3 = escape_fast_path[OF a(1,2,3,4) _ a(5,6) av, where astar = no_path
      and near_line = unrounded_line_test and rnd_pick = 0 and max_depth = 2
      and rnd_unit = "1 / 10"]
  note t4 = escape_fast_path[OF a(1,2,3,4) _ a(5,6) av, where astar = no_path
      and near_line = unrounded_line_test and rnd_pick = 0 and max_depth = 2
      and rnd_unit = "1 / 2"]
  from t1 ab a(7) have r1: "\<exists>m\<in>set [(5, 9), (4, 9), (6, 9)].
         expectimax_pathfind no_path unrounded_line_test 1 arena 5 10 5 2 0 Moore 2
           = (Inr (Some [(5, 10), m], 1), arena)"
    "\<exists>m\<in>set [(5, 9), (4, 9), (6, 9)].
         minimax_pathfind no_path (1 / 2) 1 arena 5 10 5 2 0 Moore 2
           = (Inr (Some [(5, 10), m], 1), arena)" by simp_all
  from t2 cb c(7) have r2: "minimax_pathfind no_path (1 / 2) 1 corner 2 10 5 2 2 VonNeumann 2
        = (Inr (Some [(2, 10), (2, 9)], 1), corner)" by simp
  from t3 ab a(7) have r3: "minimax_pathfind no_path (1 / 10) 0 arena 5 10 5 2 0 VonNeumann 2
        = (Inr (Some [(5, 10), (5, 9)], 0), arena)" by simp
  from t4 ab a(7) ae have r4: "minimax_pathfind no_path (1 / 2) 0 arena 5 10 5 2 0 VonNeumann 2
        = (case minimax_root_loop 0 (find_potential_adversaries arena 0 5 10 5 2 True) 2
                  VonNeumann 5 2 True 10 5 10 [(5, 9), (4, 10), (6, 10)] NegInf None NegInf 0
                  arena of
             (Inl err, w') \<Rightarrow> (Inl err, w')
           | (Inr (best_move, nodes_explored), w') \<Rightarrow>
               (Inr (map_option (\<lambda>best. [(5, 10), best]) best_move, nodes_explored), w'))"
    by simp
  show ?thesis using a au[symmetric] ab r1 c cu[symmetric] cb r2 av[symmetric] r3 r4 by simp
qed

section \<open>The searches: terminal nodes\<close>

lemma get_neighbors_VonNeumann_length: "length (get_neighbors w x y VonNeumann) \<le> 4"
proof -
  have "length (get_neighbors w x y VonNeumann)
          \<le> length (map (\<lambda>(dx, dy). (x + dx, y + dy)) (neighbor_offsets VonNeumann))"
    unfolding get_neighbors_def by (rule length_filter_le)
  then show ?thesis by (simp add: neighbor_offsets_def)
qed

lemma free_neighbors_le_4:
  "int (length (filter P (get_neighbors w x y VonNeumann))) \<le> 4"
proof -
  have "length (filter P (get_neighbors w x y VonNeumann)) \<le> length (get_neighbors w x y VonNeumann)"
    by (rule length_filter_le)
  with get_neighbors_VonNeumann_length[of w x y] show ?thesis by linarith
qed

lemma minimax_evaluate_state_bound:
  assumes "\<not> (el_x (objs w element) = goal_x \<and> el_y (objs w element) = goal_y)"
  shows "minimax_evaluate_state w element goal_x goal_y adversaries False \<le> 10"
proof -
  let ?ex = "el_x (objs w element)" and ?ey = "el_y (objs w element)"
  define D where "D = \<bar>?ex - goal_x\<bar> + \<bar>?ey - goal_y\<bar>"
  define PX where "PX = (if sign_towards goal_x ?ex \<noteq> 0
            \<and> list_ex (\<lambda>x. is_wall w x ?ey \<or> is_element w x ?ey)
                 (py_range (?ex + sign_towards goal_x ?ex) (goal_x + sign_towards goal_x ?ex)
                    (sign_towards goal_x ?ex)) then - 15 else (0::int))"
  define PY where "PY = (if sign_towards goal_y ?ey \<noteq> 0
            \<and> list_ex (\<lambda>y. is_wall w ?ex y \<or> is_element w ?ex y)
                 (py_range (?ey + sign_towards goal_y ?ey) (goal_y + sign_towards goal_y ?ey)
                    (sign_towards goal_y ?ey)) then - 15 else (0::int))"
  define F where "F = int (length (filter (free_cell w) (get_neighbors w ?ex ?ey VonNeumann)))"
  define S where "S = (\<Sum>k\<leftarrow>adversaries. if k \<in> set (ids w)
      then (if \<bar>?ex - el_x (objs w k)\<bar> + \<bar>?ey - el_y (objs w k)\<bar> \<le> 2
            then - ((3 - (\<bar>?ex - el_x (objs w k)\<bar> + \<bar>?ey - el_y (objs w k)\<bar>)) * 10) else 0)
      else 0)"
  have e: "minimax_evaluate_state w element goal_x goal_y adversaries False
             = - 10 * D + (PX + PY) + 5 * F + S"
    unfolding minimax_evaluate_state_def Let_def D_def PX_def PY_def F_def S_def by simp
  have "D \<ge> 1" unfolding D_def using assms by linarith
  moreover have "PX \<le> 0" "PY \<le> 0" unfolding PX_def PY_def by simp_all
  moreover have "F \<le> 4" unfolding F_def by (rule free_neighbors_le_4)
  moreover have "S \<le> 0" unfolding S_def by (rule sum_list_nonpos) auto
  ultimately show ?thesis unfolding e by linarith
qed

lemma expectimax_evaluate_state_bound:
  assumes "\<not> (el_x (objs w element) = goal_x \<and> el_y (objs w element) = goal_y)"
  shows "\<exists>v. expectimax_evaluate_state w element goal_x goal_y interfering_elements False = Inr v
              \<and> v \<le> 10"
proof -
  let ?ex = "el_x (objs w element)" and ?ey = "el_y (objs w element)"
  define D where "D = \<bar>?ex - goal_x\<bar> + \<bar>?ey - goal_y\<bar>"
  define PX where "PX = (if sign_towards goal_x ?ex \<noteq> 0
            \<and> list_ex (\<lambda>x. is_wall w x ?ey \<or> is_element w x ?ey)
                 (py_range (?ex + sign_towards goal_x ?ex) (goal_x + sign_towards goal_x ?ex)
                    (sign_towards goal_x ?ex)) then - 15 else (0::int))"
  define PY where "PY = (if sign_towards goal_y ?ey \<noteq> 0
            \<and> list_ex (\<lambda>y. is_wall w ?ex y \<or> is_element w ?ex y)
                 (py_range (?ey + sign_towards goal_y ?ey) (goal_y + sign_towards goal_y ?ey)
                    (sign_towards goal_y ?ey)) then - 15 else (0::int))"
  define F where "F = int (length (filter (free_cell w) (get_neighbors w ?ex ?ey VonNeumann)))"
  define S where "S = (\<Sum>k\<leftarrow>interfering_elements. if k \<in> set (ids w)
      then (if \<bar>?ex - el_x (objs w k)\<bar> + \<bar>?ey - el_y (objs w k)\<bar> \<le> 2
            then - ((3 - (\<bar>?ex - el_x (objs w k)\<bar> + \<bar>?ey - el_y (objs w k)\<bar>)) * 10) else 0)
           + (if False \<and> el_y (objs w k) < ?ey \<and> \<bar>el_x (objs w k) - ?ex\<bar> \<le> 1
              then - 20 else 0)
      else 0)"
  have e: "expectimax_evaluate_state w element goal_x goal_y interfering_elements False
             = Inr (of_int (- 10 * D + (PX + PY) + 5 * F + S))"
    unfolding expectimax_evaluate_state_def Let_def D_def PX_def PY_def F_def S_def
    by (simp cong: if_cong)
  have "D \<ge> 1" unfolding D_def using assms by linarith
  moreover have "PX \<le> 0" "PY \<le> 0" unfolding PX_def PY_def by simp_all
  moreover have "F \<le> 4" unfolding F_def by (rule free_neighbors_le_4)
  moreover have "S \<le> 0" unfolding S_def by (rule sum_list_nonpos) auto
  ultimately have "- 10 * D + (PX + PY) + 5 * F + S \<le> 10" by linarith
  then have "(of_int (- 10 * D + (PX + PY) + 5 * F + S) :: rat) \<le> 10"
    by (metis of_int_le_iff of_int_numeral)
  with e show ?thesis by blast
qed

text \<open>
  Claim C3 says that a node where the agent sits on its goal is always valued 1000. Both
  searches test the depth limit first: in \<open>arena\<close> with goal (5, 10), the cell of
  element 0, and depth 1 of 1, the value is the heuristic evaluation, 15.
\<close>

theorem goal_at_depth_limit_not_1000:
  "el_x (objs arena 0) = 5 \<and> el_y (objs arena 0) = 10
   \<and> fst (minimax_value 0 [] 1 1 True NegInf PosInf VonNeumann 5 10 False arena) = Inr (Fin 15)
   \<and> fst (expectimax_value 0 [] 1 1 MaxNode VonNeumann 5 10 False arena) = Inr (Fin 15)"
  by (simp add: minimax_eval expectimax_eval world_simps grid_simps ext_simps Let_def
        cong: let_weak_cong)

text \<open>
  Claim C3, amended. When the depth limit is reached the value of the node is the
  heuristic evaluation of the state, also when the agent sits on its goal (in Expectimax
  the call raises whenever \<open>evaluate_state\<close> does); below the depth limit a node where
  the agent sits on its goal is valued 1000. Without bottom-row priority the heuristic
  evaluation of a state where the agent is not on its goal is at most 10, so never 1000.
\<close>

theorem terminal_values:
  assumes "element_id \<in> set (ids w)"
  shows "(max_depth \<le> depth \<longrightarrow>
            minimax_value element_id adversaries depth max_depth is_max alpha beta topology
              goal_x goal_y bottom_row_priority w
              = (Inr (Fin (minimax_evaluate_state w element_id goal_x goal_y adversaries
                             bottom_row_priority)), w)
          \<and> expectimax_value element_id adversaries depth max_depth node_type topology
              goal_x goal_y bottom_row_priority w
              = (case expectimax_evaluate_state w element_id goal_x goal_y adversaries
                        bottom_row_priority of
                   Inl err \<Rightarrow> (Inl err, w) | Inr v \<Rightarrow> (Inr (Fin v), w)))
       \<and> (depth < max_depth \<and> el_x (objs w element_id) = goal_x
            \<and> el_y (objs w element_id) = goal_y \<longrightarrow>
            minimax_value element_id adversaries depth max_depth is_max alpha beta topology
              goal_x goal_y bottom_row_priority w = (Inr (Fin 1000), w)
          \<and> expectimax_value element_id adversaries depth max_depth node_type topology
              goal_x goal_y bottom_row_priority w = (Inr (Fin 1000), w))
       \<and> (\<not> (el_x (objs w element_id) = goal_x \<and> el_y (objs w element_id) = goal_y) \<longrightarrow>
            minimax_evaluate_state w element_id goal_x goal_y adversaries False \<le> 10
          \<and> (\<exists>v. expectimax_evaluate_state w element_id goal_x goal_y adversaries False = Inr v
                  \<and> v \<le> 10))"
  using assms minimax_evaluate_state_bound[of w element_id goal_x goal_y adversaries]
    expectimax_evaluate_state_bound[of w element_id goal_x goal_y adversaries]
  by (simp add: minimax_value.simps[of element_id adversaries depth max_depth]
        expectimax_value.simps[of element_id adversaries depth max_depth])

text \<open>
  In \<open>arena\<close>: element 0 at the depth limit away from its goal is valued -90 by both
  searches, and 1000 below the depth limit when the goal is its own cell.
\<close>

theorem terminal_values_witness:
  "0 \<in> set (ids arena) \<and> (1::int) \<le> 1 \<and> (0::int) < 1
   \<and> el_x (objs arena 0) = 5 \<and> el_y (objs arena 0) = 10
   \<and> \<not> (el_x (objs arena 0) = 5 \<and> el_y (objs arena 0) = 2)
   \<and> minimax_value 0 [1] 1 1 True NegInf PosInf VonNeumann 5 2 False arena
       = (Inr (Fin (minimax_evaluate_state arena 0 5 2 [1] False)), arena)
   \<and> minimax_evaluate_state arena 0 5 2 [1] False = - 90
   \<and> expectimax_value 0 [1] 1 1 MaxNode VonNeumann 5 2 False arena = (Inr (Fin (- 90)), arena)
   \<and> minimax_value 0 [1] 0 1 True NegInf PosInf VonNeumann 5 10 False arena
       = (Inr (Fin 1000), arena)
   \<and> expectimax_value 0 [1] 0 1 MaxNode VonNeumann 5 10 False arena = (Inr (Fin 1000), arena)
   \<and> minimax_evaluate_state arena 0 5 2 [1] False \<le> 10"
proof -
  have a: "0 \<in> set (ids arena)" "el_x (objs arena 0) = 5" "el_y (objs arena 0) = 10"
    by (simp_all add: world_simps)
  have v: "minimax_evaluate_state arena 0 5 2 [1] False = - 90"
    by (simp add: minimax_eval world_simps grid_simps Let_def cong: let_weak_cong)
  have x: "expectimax_evaluate_state arena 0 5 2 [1] False = Inr (- 90)"
    by (simp add: expectimax_eval world_simps grid_simps Let_def cong: let_weak_cong)
  note t1 = terminal_values[OF a(1), where max_depth = 1 and depth = 1 and adversaries = "[1]"
      and is_max = True and alpha = NegInf and beta = PosInf and topology = VonNeumann
      and goal_x = 5 and goal_y = 2 and bottom_row_priority = False and node_type = MaxNode]
  note t2 = terminal_values[OF a(1), where max_depth = 1 and depth = 0 and adversaries = "[1]"
      and is_max = True and alpha = NegInf and beta = PosInf and topology = VonNeumann
      and goal_x = 5 and goal_y = 10 and bottom_row_priority = False and node_type = MaxNode]
  from t1 t2 a v x show ?thesis by simp
qed

lemma expectimax_evaluate_state_bottom_row:
  "expectimax_evaluate_state w element goal_x goal_y interfering_elements True = Inl NameError"
  by (simp add: expectimax_evaluate_state_def Let_def)

text \<open>
  Claim C9. \<open>evaluate_state\<close> of \<open>expectimax.py\<close> should return a score for either
  value of \<open>is_bottom_row\<close>. With \<open>is_bottom_row\<close> it raises \<open>NameError\<close> for every
  grid, element and goal, because it reads the unbound name \<open>start_y\<close>; the function of
  the same name in \<open>minimax.py\<close> computes the vertical term from \<open>element.y - goal_y\<close>.
  So does every search that reaches the depth limit for a bottom-row agent: in \<open>capped\<close>
  element 0 is in the bottom row with no upward move, and \<open>expectimax_pathfind\<close> raises.
\<close>

theorem expectimax_evaluate_state_raises:
  "expectimax_evaluate_state w element goal_x goal_y interfering_elements True = Inl NameError
   \<and> fst (expectimax_value 0 [] 1 1 MaxNode VonNeumann 5 2 True arena) = Inl NameError
   \<and> height capped - 3 \<le> el_y (objs capped 0)
   \<and> fst (expectimax_pathfind no_path unrounded_line_test 0 capped 5 10 5 2 0 VonNeumann 2) = Inl NameError"
proof -
  have "fst (expectimax_value 0 [] 1 1 MaxNode VonNeumann 5 2 True arena) = Inl NameError"
    by (simp add: expectimax_value.simps[of _ _ 1 1] expectimax_evaluate_state_bottom_row
          world_simps)
  moreover have "height capped - 3 \<le> el_y (objs capped 0)" by (simp add: world_simps)
  moreover have "fst (expectimax_pathfind no_path unrounded_line_test 0 capped 5 10 5 2 0 VonNeumann 2) = Inl NameError"
    by (simp add: expectimax_eval world_simps grid_simps ext_simps Let_def cong: let_weak_cong)
  ultimately show ?thesis using expectimax_evaluate_state_bottom_row by simp
qed

text \<open>
  The same at a concrete call: element 0 of \<open>arena\<close> with goal (5, 2) and element 1 as
  interfering element.
\<close>

theorem expectimax_evaluate_state_raises_witness:
  "expectimax_evaluate_state arena 0 5 2 [1] True = Inl NameError
   \<and> fst (expectimax_value 0 [] 1 1 MaxNode VonNeumann 5 2 True arena) = Inl NameError
   \<and> height capped - 3 \<le> el_y (objs capped 0)
   \<and> fst (expectimax_pathfind no_path unrounded_line_test 0 capped 5 10 5 2 0 VonNeumann 2) = Inl NameError"
  using expectimax_evaluate_state_raises[of arena 0 5 2 "[1]"] by simp

section \<open>expectimax.py: the chance node\<close>

lemma get_neighbors_distinct: "distinct (get_neighbors w x y topology)"
  unfolding get_neighbors_def
  by (rule distinct_filter) (cases topology; simp add: neighbor_offsets_def)

lemma get_neighbors_not_self: "(x, y) \<notin> set (get_neighbors w x y topology)"
  unfolding get_neighbors_def by (cases topology; simp add: neighbor_offsets_def)

lemma chance_moves_distinct: "distinct (chance_moves w element_id other topology)"
  unfolding chance_moves_def
  using get_neighbors_distinct[of w "el_x (objs w other)" "el_y (objs w other)" topology]
    get_neighbors_not_self[of "el_x (objs w other)" "el_y (objs w other)" w topology]
  by auto

lemma update_fresh: "k \<notin> fst ` set al \<Longrightarrow> AList.update k v al = al @ [(k, v)]"
  by (induction al) auto

lemma fold_update_distinct:
  "distinct ps \<Longrightarrow> set ps \<inter> fst ` set acc = {} \<Longrightarrow>
     fold (\<lambda>p m. AList.update p (f p) m) ps acc = acc @ map (\<lambda>p. (p, f p)) ps"
proof (induction ps arbitrary: acc)
  case Nil
  then show ?case by simp
next
  case (Cons p ps)
  have "p \<notin> fst ` set acc" using Cons.prems(2) by auto
  then have u: "AList.update p (f p) acc = acc @ [(p, f p)]" by (rule update_fresh)
  have "set ps \<inter> fst ` set (acc @ [(p, f p)]) = {}" using Cons.prems by auto
  with Cons.IH[of "acc @ [(p, f p)]"] Cons.prems(1) u show ?case by simp
qed

lemma move_weights_distinct:
  assumes "distinct moves"
  shows "move_weights w other moves = map (\<lambda>p. (p, weight_of w other p)) moves"
proof -
  have e: "\<And>p. (if fst p = el_x (objs w other) \<and> snd p = el_y (objs w other)
              then stay_weight w other else 1) = weight_of w other p"
    by (auto simp: weight_of_def stay_weight_def)
  show ?thesis
    unfolding move_weights_def e
    using fold_update_distinct[OF assms, of "[]" "weight_of w other"] by simp
qed

lemma weight_of_pos: "weight_of w other p > 0"
  by (simp add: weight_of_def)

lemma sum_list_weights_pos: "moves \<noteq> [] \<Longrightarrow> sum_list (map (weight_of w other) moves) > 0"
  by (induction moves) (auto simp: weight_of_pos add_pos_nonneg sum_list_nonneg
        intro!: add_pos_nonneg sum_list_nonneg less_imp_le[OF weight_of_pos])

lemma sum_list_divide: "sum_list (map (\<lambda>x. f x / c) xs) = sum_list (map f xs) / (c::rat)"
  by (induction xs) (auto simp: add_divide_distrib)

lemma probability_of_distinct:
  assumes "distinct moves" "p \<in> set moves"
  shows "probability_of w other moves p
           = weight_of w other p / sum_list (map (weight_of w other) moves)"
proof -
  have "map_of (map (\<lambda>p. (p, weight_of w other p)) moves) p = Some (weight_of w other p)"
    using assms(2) by (simp add: map_of_map_restrict)
  then show ?thesis
    by (simp add: probability_of_def total_weight_of_def move_weights_distinct[OF assms(1)]
          comp_def)
qed

lemma probabilities_sum_to_one:
  assumes "distinct moves" "moves \<noteq> []"
  shows "sum_list (map (probability_of w other moves) moves) = 1"
proof -
  let ?T = "sum_list (map (weight_of w other) moves)"
  have "map (probability_of w other moves) moves = map (\<lambda>p. weight_of w other p / ?T) moves"
    by (rule map_cong) (simp_all add: probability_of_distinct[OF assms(1)])
  then have "sum_list (map (probability_of w other moves) moves)
               = sum_list (map (\<lambda>p. weight_of w other p / ?T) moves)" by (rule arg_cong)
  also have "\<dots> = ?T / ?T" by (rule sum_list_divide)
  also have "\<dots> = 1" using sum_list_weights_pos[OF assms(2), of w other] by simp
  finally show ?thesis .
qed

lemma chance_loop_excluded:
  assumes "map_of weights p = Some weight" "weight / total_weight < 1 / 100"
  shows "expectimax_chance_loop child other weights total_weight (p # rest) total_value w0
           = expectimax_chance_loop child other weights total_weight rest total_value w0"
  using assms by (cases p) (simp add: Let_def)

lemma chance_loop_included:
  assumes "map_of weights p = Some weight" "\<not> weight / total_weight < 1 / 100"
    and "child (if p = (el_x (objs w0 other), el_y (objs w0 other)) then w0
                else simulate_move w0 other (fst p) (snd p)) = (Inr move_value, w2)"
  shows "expectimax_chance_loop child other weights total_weight (p # rest) total_value w0
           = expectimax_chance_loop child other weights total_weight rest
               (ext_plus total_value (ext_scale (weight / total_weight) move_value))
               (if p = (el_x (objs w0 other), el_y (objs w0 other)) then w2
                else simulate_move w2 other (el_x (objs w0 other)) (el_y (objs w0 other)))"
  using assms by (cases p) (auto simp: Let_def)

lemma chance_node_unfold:
  assumes "element_id \<in> set (ids w)" "depth < max_depth"
    and "\<not> (el_x (objs w element_id) = goal_x \<and> el_y (objs w element_id) = goal_y)"
    and "other \<in> set (ids w)"
  shows "expectimax_value element_id (other # remaining) depth max_depth ChanceNode topology
           goal_x goal_y is_bottom_row w
         = expectimax_chance_loop
             (\<lambda>w'. if remaining \<noteq> []
                    then expectimax_value element_id remaining depth max_depth ChanceNode
                           topology goal_x goal_y is_bottom_row w'
                    else expectimax_value element_id [] (depth + 1) max_depth MaxNode topology
                           goal_x goal_y is_bottom_row w')
             other (move_weights w other (chance_moves w element_id other topology))
             (total_weight_of w other (chance_moves w element_id other topology))
             (chance_moves w element_id other topology) (Fin 0) w"
proof -
  have ne: "chance_moves w element_id other topology \<noteq> []" by (simp add: chance_moves_def)
  have ng: "(el_x (objs w element_id) = goal_x \<and> el_y (objs w element_id) = goal_y) = False"
    using assms(3) by simp
  show ?thesis
    unfolding expectimax_value.simps[of element_id "other # remaining" depth max_depth ChanceNode
                topology goal_x goal_y is_bottom_row w] total_weight_of_def
    using assms(1,2,4) ne by (simp add: ng Let_def)
qed

text \<open>
  Claim C5. At a chance node of \<open>expectimax_value\<close> the moves enumerated are the
  legal moves of the interfering element followed by staying in place; staying weighs
  3 when that element is in the bottom 3 rows and 1.5 otherwise, every other move weighs
  1; the probability of a move is its weight divided by the total weight, and the
  probabilities sum to 1 (exactly in the rationals of the model, hence within 1e-6); the
  node runs its loop with these weights, and the loop leaves out a branch whose
  probability is below 0.01 and adds probability times value for every other branch.
\<close>

theorem chance_node_probabilities:
  assumes "moves = chance_moves w element_id other topology"
    and "stay = (el_x (objs w other), el_y (objs w other))"
  shows "moves = filter (\<lambda>p. \<not> is_wall w (fst p) (snd p)
                            \<and> p \<noteq> (el_x (objs w element_id), el_y (objs w element_id))
                            \<and> \<not> is_element w (fst p) (snd p))
                   (get_neighbors w (fst stay) (snd stay) topology) @ [stay]
       \<and> (\<forall>p\<in>set moves. map_of (move_weights w other moves) p
             = Some (if p = stay then (if el_y (objs w other) \<ge> height w - 3 then 3 else 3 / 2)
                     else 1))
       \<and> (\<forall>p\<in>set moves. probability_of w other moves p
             = (if p = stay then (if el_y (objs w other) \<ge> height w - 3 then 3 else 3 / 2)
                else 1) / total_weight_of w other moves)
       \<and> sum_list (map (probability_of w other moves) moves) = 1
       \<and> \<bar>sum_list (map (probability_of w other moves) moves) - 1\<bar> \<le> 1 / 1000000
       \<and> (element_id \<in> set (ids w) \<and> depth < max_depth
            \<and> \<not> (el_x (objs w element_id) = goal_x \<and> el_y (objs w element_id) = goal_y)
            \<and> other \<in> set (ids w) \<longrightarrow>
            expectimax_value element_id (other # remaining) depth max_depth ChanceNode topology
              goal_x goal_y is_bottom_row w
            = expectimax_chance_loop
                (\<lambda>w'. if remaining \<noteq> []
                       then expectimax_value element_id remaining depth max_depth ChanceNode
                              topology goal_x goal_y is_bottom_row w'
                       else expectimax_value element_id [] (depth + 1) max_depth MaxNode
                              topology goal_x goal_y is_bottom_row w')
                other (move_weights w other moves) (total_weight_of w other moves) moves
                (Fin 0) w)
       \<and> (map_of weights q = Some weight \<and> weight / total_weight < 1 / 100 \<longrightarrow>
            expectimax_chance_loop child other weights total_weight (q # rest) total_value w0
              = expectimax_chance_loop child other weights total_weight rest total_value w0)
       \<and> (map_of weights q = Some weight \<and> \<not> weight / total_weight < 1 / 100
            \<and> child (if q = (el_x (objs w0 other), el_y (objs w0 other)) then w0
                      else simulate_move w0 other (fst q) (snd q)) = (Inr move_value, w2) \<longrightarrow>
            expectimax_chance_loop child other weights total_weight (q # rest) total_value w0
              = expectimax_chance_loop child other weights total_weight rest
                  (ext_plus total_value (ext_scale (weight / total_weight) move_value))
                  (if q = (el_x (objs w0 other), el_y (objs w0 other)) then w2
                   else simulate_move w2 other (el_x (objs w0 other)) (el_y (objs w0 other))))"
proof -
  have d: "distinct moves" unfolding assms(1) by (rule chance_moves_distinct)
  have ne: "moves \<noteq> []" unfolding assms(1) by (simp add: chance_moves_def)
  have mw: "move_weights w other moves = map (\<lambda>p. (p, weight_of w other p)) moves"
    by (rule move_weights_distinct[OF d])
  have m: "map_of (move_weights w other moves) p = Some (weight_of w other p)"
    if "p \<in> set moves" for p using that by (simp add: mw map_of_map_restrict)
  have pr: "probability_of w other moves p = weight_of w other p / total_weight_of w other moves"
    if "p \<in> set moves" for p using m[OF that] by (simp add: probability_of_def)
  have wo: "weight_of w other p
      = (if p = stay then (if el_y (objs w other) \<ge> height w - 3 then 3 else 3 / 2) else 1)" for p
    by (simp add: weight_of_def assms(2))
  have s: "sum_list (map (probability_of w other moves) moves) = 1"
    by (rule probabilities_sum_to_one[OF d ne])
  have c1: "moves = filter (\<lambda>p. \<not> is_wall w (fst p) (snd p)
                            \<and> p \<noteq> (el_x (objs w element_id), el_y (objs w element_id))
                            \<and> \<not> is_element w (fst p) (snd p))
                   (get_neighbors w (fst stay) (snd stay) topology) @ [stay]"
    unfolding assms chance_moves_def
    by (simp add: prod_eq_iff cong: filter_cong)
  note c6 = chance_node_unfold[of element_id w depth max_depth goal_x goal_y other remaining
              topology is_bottom_row, folded assms(1)]
  note c7 = chance_loop_excluded[of weights q weight total_weight child other rest total_value w0]
  note c8 = chance_loop_included[where child = child and ?w0.0 = w0 and other = other and p = q
            and total_weight = total_weight and weights = weights and weight = weight
            and move_value = move_value and ?w2.0 = w2 and rest = rest
            and total_value = total_value]
  show ?thesis
    using c1 m pr s c6 c7 c8 by (simp add: wo)
qed

text \<open>
  In \<open>arena\<close>: the chance node of element 1 (not in the bottom rows) has four moves
  of probability 2/11 and stays with 3/11; that of element 0 (bottom row) has three
  moves of probability 1/6 and stays with 1/2. A branch of probability 1/200 is left
  out of the sum, one of probability 3/11 and value 11 adds 3.
\<close>

theorem chance_node_probabilities_witness:
  "chance_moves arena 0 1 VonNeumann = [(5, 7), (4, 8), (6, 8), (5, 9), (5, 8)]
   \<and> map (probability_of arena 1 (chance_moves arena 0 1 VonNeumann))
         (chance_moves arena 0 1 VonNeumann) = [2 / 11, 2 / 11, 2 / 11, 2 / 11, 3 / 11]
   \<and> chance_moves arena 1 0 VonNeumann = [(5, 9), (4, 10), (6, 10), (5, 10)]
   \<and> map (probability_of arena 0 (chance_moves arena 1 0 VonNeumann))
         (chance_moves arena 1 0 VonNeumann) = [1 / 6, 1 / 6, 1 / 6, 1 / 2]
   \<and> sum_list (map (probability_of arena 1 (chance_moves arena 0 1 VonNeumann))
         (chance_moves arena 0 1 VonNeumann)) = 1
   \<and> 0 \<in> set (ids arena) \<and> 1 \<in> set (ids arena) \<and> (1::int) < 3
   \<and> \<not> (el_x (objs arena 0) = 5 \<and> el_y (objs arena 0) = 2)
   \<and> expectimax_value 0 [1] 1 3 ChanceNode VonNeumann 5 2 False arena
       = expectimax_chance_loop
           (\<lambda>w'. expectimax_value 0 [] (1 + 1) 3 MaxNode VonNeumann 5 2 False w')
           1 (move_weights arena 1 (chance_moves arena 0 1 VonNeumann))
           (total_weight_of arena 1 (chance_moves arena 0 1 VonNeumann))
           (chance_moves arena 0 1 VonNeumann) (Fin 0) arena
   \<and> map_of [((5, 7), 1)] (5, 7) = Some (1::rat) \<and> (1::rat) / 200 < 1 / 100
   \<and> expectimax_chance_loop (\<lambda>w'. (Inr (Fin 11), w')) 1 [((5, 7), 1)] 200 [(5, 7)] (Fin 0) arena
       = (Inr (Fin 0), arena)
   \<and> map_of [((5, 8), 3 / 2)] (5, 8) = Some (3 / 2 :: rat) \<and> \<not> (3 / 2 :: rat) / (11 / 2) < 1 / 100
   \<and> expectimax_chance_loop (\<lambda>w'. (Inr (Fin 11), w')) 1 [((5, 8), 3 / 2)] (11 / 2) [(5, 8)]
        (Fin 0) arena = (Inr (Fin 3), arena)"
proof -
  have m1: "chance_moves arena 0 1 VonNeumann = [(5, 7), (4, 8), (6, 8), (5, 9), (5, 8)]"
    and m2: "chance_moves arena 1 0 VonNeumann = [(5, 9), (4, 10), (6, 10), (5, 10)]"
    by (simp_all add: chance_moves_def world_simps grid_simps)
  have a: "0 \<in> set (ids arena)" "1 \<in> set (ids arena)"
    "el_x (objs arena 0) = 5" "el_y (objs arena 0) = 10"
    "el_x (objs arena 1) = 5" "el_y (objs arena 1) = 8" "height arena = 12"
    "el_x (objs arena (Suc 0)) = 5" "el_y (objs arena (Suc 0)) = 8"
    by (simp_all add: world_simps)
  note w1 = chance_node_probabilities[OF refl refl, where w = arena and element_id = 0
      and other = 1 and topology = VonNeumann and depth = 1 and max_depth = 3 and goal_x = 5
      and goal_y = 2 and remaining = "[]" and is_bottom_row = False
      and weights = "[((5, 7), 1)]" and q = "(5, 7)" and weight = 1 and total_weight = 200
      and child = "\<lambda>w'. (Inr (Fin 11), w')" and rest = "[]" and total_value = "Fin 0"
      and ?w0.0 = arena]
  note w3 = chance_node_probabilities[OF refl refl, where w = arena and element_id = 0
      and other = 1 and topology = VonNeumann
      and weights = "[((5, 8), 3 / 2)]" and q = "(5, 8)" and weight = "3 / 2"
      and total_weight = "11 / 2" and child = "\<lambda>w'. (Inr (Fin 11), w')" and rest = "[]"
      and total_value = "Fin 0" and ?w0.0 = arena and move_value = "Fin 11"
      and ?w2.0 = arena]
  have p1: "map (probability_of arena 1 (chance_moves arena 0 1 VonNeumann))
         (chance_moves arena 0 1 VonNeumann) = [2 / 11, 2 / 11, 2 / 11, 2 / 11, 3 / 11]"
    by (simp add: probability_of_def total_weight_of_def move_weights_def stay_weight_def
          chance_moves_def world_simps grid_simps)
  have p2: "map (probability_of arena 0 (chance_moves arena 1 0 VonNeumann))
         (chance_moves arena 1 0 VonNeumann) = [1 / 6, 1 / 6, 1 / 6, 1 / 2]"
    by (simp add: probability_of_def total_weight_of_def move_weights_def stay_weight_def
          chance_moves_def world_simps grid_simps)
  have e1: "expectimax_chance_loop (\<lambda>w'. (Inr (Fin 11), w')) 1 [((5, 7), 1)] 200 [(5, 7)]
              (Fin 0) arena = (Inr (Fin 0), arena)"
    using w1 by simp
  have e2: "expectimax_chance_loop (\<lambda>w'. (Inr (Fin 11), w')) 1 [((5, 8), 3 / 2)] (11 / 2)
              [(5, 8)] (Fin 0) arena = (Inr (Fin 3), arena)"
    using w3 by (simp add: a)
  have n: "expectimax_value 0 [1] 1 3 ChanceNode VonNeumann 5 2 False arena
       = expectimax_chance_loop
           (\<lambda>w'. expectimax_value 0 [] (1 + 1) 3 MaxNode VonNeumann 5 2 False w')
           1 (move_weights arena 1 (chance_moves arena 0 1 VonNeumann))
           (total_weight_of arena 1 (chance_moves arena 0 1 VonNeumann))
           (chance_moves arena 0 1 VonNeumann) (Fin 0) arena"
    using w1 a by simp
  have s: "sum_list (map (probability_of arena 1 (chance_moves arena 0 1 VonNeumann))
         (chance_moves arena 0 1 VonNeumann)) = 1" using w1 by blast
  show ?thesis
    using p1 p2 m1 m2 a(1,2,3,4) e1 e2 n s by simp
qed

section \<open>The searches restore the world\<close>

text \<open>
  A simulated move into a free cell keeps invariant I1, and simulating the move back
  restores the world exactly. Every loop of the searches undoes its move before the
  next iteration and before a pruning cut. By induction over the recursion, a call in a
  world that satisfies I1 returns a value together with the world it was given; the
  only exception that a call for a registered element can raise is the \<open>NameError\<close> of
  \<open>evaluate_state\<close> in \<open>expectimax.py\<close>, which leaves the loops without their
  restoring statements.
\<close>

lemma consistentD:
  "consistent w \<Longrightarrow> k \<in> set (ids w) \<Longrightarrow>
     el_id (objs w k) = k \<and> cells w (el_x (objs w k), el_y (objs w k)) = Occupied k"
  by (simp add: consistent_def list_all_iff)

lemma free_cell_Empty: "free_cell w p \<Longrightarrow> cells w p = Empty"
  by (cases "cells w p") (auto simp: free_cell_def is_wall_def is_element_def)

lemma ids_simulate_move [simp]: "ids (simulate_move w r nx ny) = ids w"
  by (simp add: simulate_move_def add_element_def set_xy_def remove_element_def)

lemma simulate_move_consistent:
  assumes "consistent w" "r \<in> set (ids w)" "free_cell w (nx, ny)"
  shows "consistent (simulate_move w r nx ny)"
proof -
  let ?w = "simulate_move w r nx ny"
  have r: "el_id (objs w r) = r" "cells w (el_x (objs w r), el_y (objs w r)) = Occupied r"
    using consistentD[OF assms(1,2)] by auto
  have e: "cells w (nx, ny) = Empty" using assms(3) by (rule free_cell_Empty)
  have "el_id (objs ?w k) = k \<and> cells ?w (el_x (objs ?w k), el_y (objs ?w k)) = Occupied k"
    if k: "k \<in> set (ids w)" for k
  proof (cases "k = r")
    case True
    then show ?thesis using r
      by (simp add: simulate_move_def add_element_def set_xy_def remove_element_def)
  next
    case False
    have kk: "el_id (objs w k) = k" "cells w (el_x (objs w k), el_y (objs w k)) = Occupied k"
      using consistentD[OF assms(1) k] by auto
    have "(el_x (objs w k), el_y (objs w k)) \<noteq> (nx, ny)" using kk(2) e by auto
    moreover have "(el_x (objs w k), el_y (objs w k)) \<noteq> (el_x (objs w r), el_y (objs w r))"
      using kk(2) r(2) False by auto
    ultimately show ?thesis using kk False
      by (auto simp: simulate_move_def add_element_def set_xy_def remove_element_def)
  qed
  then show ?thesis using assms(1) by (simp add: consistent_def list_all_iff)
qed

lemma simulate_move_undo:
  assumes "consistent w" "r \<in> set (ids w)" "free_cell w (nx, ny)"
  shows "simulate_move (simulate_move w r nx ny) r (el_x (objs w r)) (el_y (objs w r)) = w"
proof -
  have r: "el_id (objs w r) = r" "cells w (el_x (objs w r), el_y (objs w r)) = Occupied r"
    using consistentD[OF assms(1,2)] by auto
  have e: "cells w (nx, ny) = Empty" using assms(3) by (rule free_cell_Empty)
  have c: "(cells w)((el_x (objs w r), el_y (objs w r)) := Empty, (nx, ny) := Occupied r,
                     (nx, ny) := Empty, (el_x (objs w r), el_y (objs w r)) := Occupied r) = cells w"
    using r(2) e by (auto simp: fun_eq_iff)
  have o: "(objs w)(r := (objs w r)\<lparr>el_x := el_x (objs w r), el_y := el_y (objs w r)\<rparr>) = objs w"
    by (auto simp: fun_eq_iff)
  show ?thesis using r(1) c o
    by (simp add: simulate_move_def add_element_def set_xy_def remove_element_def)
qed

lemma simulate_move_pos:
  "el_x (objs (simulate_move w r nx ny) r) = nx \<and> el_y (objs (simulate_move w r nx ny) r) = ny"
  by (simp add: simulate_move_def add_element_def set_xy_def remove_element_def)

lemma add_remove_element:
  assumes "consistent w" "r \<in> set (ids w)"
  shows "add_element (remove_element w r) r = w"
proof -
  have r: "el_id (objs w r) = r" "cells w (el_x (objs w r), el_y (objs w r)) = Occupied r"
    using consistentD[OF assms(1,2)] by auto
  have "(cells w)((el_x (objs w r), el_y (objs w r)) := Empty,
                  (el_x (objs w r), el_y (objs w r)) := Occupied r) = cells w"
    using r(2) by (auto simp: fun_eq_iff)
  then show ?thesis using r(1) by (simp add: add_element_def remove_element_def)
qed

lemma minimax_max_loop_returns:
  assumes child: "\<And>a w1. consistent w1 \<Longrightarrow> ids w1 = ids w \<Longrightarrow> \<exists>v. child a w1 = (Inr v, w1)"
    and "consistent w" "element \<in> set (ids w)" "\<forall>p\<in>set moves. free_cell w p"
  shows "\<exists>v. minimax_max_loop child element moves value alpha beta w = (Inr v, w)"
  using assms(4)
proof (induction moves arbitrary: "value" alpha)
  case Nil
  then show ?case by simp
next
  case (Cons p moves)
  obtain nx ny where p: "p = (nx, ny)" by (cases p)
  let ?w1 = "simulate_move w element nx ny"
  have f: "free_cell w (nx, ny)" using Cons.prems p by simp
  have c1: "consistent ?w1" using simulate_move_consistent[OF assms(2,3) f] .
  obtain mv where ch: "child alpha ?w1 = (Inr mv, ?w1)" using child[OF c1] by auto
  have w3: "simulate_move ?w1 element (el_x (objs w element)) (el_y (objs w element)) = w"
    using simulate_move_undo[OF assms(2,3) f] .
  show ?case
  proof (cases "ext_le beta (ext_max alpha (ext_max value mv))")
    case True
    with p ch w3 show ?thesis by (simp add: Let_def)
  next
    case False
    with p ch w3
    have "minimax_max_loop child element (p # moves) value alpha beta w
          = minimax_max_loop child element moves (ext_max value mv)
              (ext_max alpha (ext_max value mv)) beta w"
      by (simp add: Let_def)
    then show ?thesis using Cons.IH Cons.prems by simp
  qed
qed

lemma minimax_min_loop_returns:
  assumes child: "\<And>b w1. consistent w1 \<Longrightarrow> ids w1 = ids w \<Longrightarrow> \<exists>v. child b w1 = (Inr v, w1)"
    and "consistent w" "adversary \<in> set (ids w)"
    and "\<forall>p\<in>set moves. p = (el_x (objs w adversary), el_y (objs w adversary)) \<or> free_cell w p"
  shows "\<exists>v. minimax_min_loop child adversary moves value alpha beta w = (Inr v, w)"
  using assms(4)
proof (induction moves arbitrary: "value" beta)
  case Nil
  then show ?case by simp
next
  case (Cons p moves)
  obtain nx ny where p: "p = (nx, ny)" by (cases p)
  let ?stay = "nx = el_x (objs w adversary) \<and> ny = el_y (objs w adversary)"
  let ?w1 = "if ?stay then w else simulate_move w adversary nx ny"
  have f: "\<not> ?stay \<Longrightarrow> free_cell w (nx, ny)" using Cons.prems p by auto
  have c1: "consistent ?w1" using simulate_move_consistent[OF assms(2,3) f] assms(2) by auto
  have i1: "ids ?w1 = ids w" by simp
  obtain mv where ch: "child beta ?w1 = (Inr mv, ?w1)" using child[OF c1 i1] by auto
  have w3: "(if ?stay then ?w1
             else simulate_move ?w1 adversary (el_x (objs w adversary)) (el_y (objs w adversary))) = w"
    using simulate_move_undo[OF assms(2,3) f] by auto
  show ?case
  proof (cases "ext_le (ext_min beta (ext_min value mv)) alpha")
    case True
    with p ch w3 show ?thesis by (simp add: Let_def)
  next
    case False
    with p ch w3
    have "minimax_min_loop child adversary (p # moves) value alpha beta w
          = minimax_min_loop child adversary moves (ext_min value mv) alpha
              (ext_min beta (ext_min value mv)) w"
      by (simp add: Let_def)
    then show ?thesis using Cons.IH Cons.prems by simp
  qed
qed

lemma minimax_value_returns:
  "consistent w \<Longrightarrow> element_id \<in> set (ids w) \<Longrightarrow>
   \<exists>v. minimax_value element_id adversaries depth max_depth is_max alpha beta topology
          goal_x goal_y bottom_row_priority w = (Inr v, w)"
proof (induction element_id adversaries depth max_depth is_max alpha beta topology goal_x goal_y
         bottom_row_priority w rule: minimax_value.induct)
  case (1 element_id adversaries depth max_depth is_max alpha beta topology goal_x goal_y
          bottom_row_priority w)
  note simps = minimax_value.simps[of element_id adversaries depth max_depth
               is_max alpha beta topology goal_x goal_y bottom_row_priority w]
  note cons = "1.prems"(1)
  note mem = "1.prems"(2)
  show ?case
  proof (cases "max_depth \<le> depth
                \<or> (el_x (objs w element_id) = goal_x \<and> el_y (objs w element_id) = goal_y)")
    case True
    with mem show ?thesis unfolding simps by auto
  next
    case False
    then have dep: "\<not> max_depth \<le> depth"
      and ng: "\<not> (el_x (objs w element_id) = goal_x \<and> el_y (objs w element_id) = goal_y)"
      by auto
    have nmem: "\<not> element_id \<notin> set (ids w)" using mem by simp
    show ?thesis
    proof (cases is_max)
      case True
      define neighbors where "neighbors =
        get_neighbors w (el_x (objs w element_id)) (el_y (objs w element_id)) topology"
      define valid_moves where "valid_moves = filter (free_cell w) neighbors"
      define upward_moves where
        "upward_moves = filter (\<lambda>p. snd p < el_y (objs w element_id)) valid_moves"
      define valid_moves' where "valid_moves' =
        (if bottom_row_priority \<and> valid_moves \<noteq> [] \<and> upward_moves \<noteq> []
         then upward_moves else valid_moves)"
      have free: "\<forall>p\<in>set valid_moves'. free_cell w p"
        by (auto simp: valid_moves'_def upward_moves_def valid_moves_def)
      let ?child = "\<lambda>a w'. minimax_value element_id adversaries (depth + 1) max_depth False a
                              beta topology goal_x goal_y bottom_row_priority w'"
      have eq: "minimax_value element_id adversaries depth max_depth is_max alpha beta topology
                  goal_x goal_y bottom_row_priority w =
                (if valid_moves' = []
                 then (Inr (Fin (minimax_evaluate_state w element_id goal_x goal_y adversaries
                                   bottom_row_priority - 20)), w)
                 else minimax_max_loop ?child element_id valid_moves' NegInf alpha beta w)"
        unfolding simps valid_moves'_def upward_moves_def valid_moves_def neighbors_def
        using mem dep ng True by (auto simp: Let_def)
      show ?thesis
      proof (cases "valid_moves' = []")
        case e: True
        with eq show ?thesis by simp
      next
        case ne: False
        have ch: "\<And>a w1. consistent w1 \<Longrightarrow> ids w1 = ids w \<Longrightarrow> \<exists>v. ?child a w1 = (Inr v, w1)"
          using "1.IH"(1)[OF nmem dep ng True neighbors_def valid_moves_def upward_moves_def
                             valid_moves'_def ne] mem by simp
        from minimax_max_loop_returns[where child = ?child, OF ch cons mem free] eq ne
        show ?thesis by simp
      qed
    next
      case nmax: False
      show ?thesis
      proof (cases adversaries)
        case Nil
        from "1.IH"(2)[OF nmem dep ng nmax Nil cons mem] mem dep ng nmax Nil
        show ?thesis unfolding simps by simp
      next
        case (Cons adversary_id remaining)
        show ?thesis
        proof (cases "adversary_id \<in> set (ids w)")
          case False
          with mem dep ng nmax Cons show ?thesis unfolding simps by simp
        next
          case amem: True
          define ax where "ax = el_x (objs w adversary_id)"
          define ay where "ay = el_y (objs w adversary_id)"
          define neighbors where "neighbors = get_neighbors w ax ay topology"
          define valid_moves where "valid_moves =
             filter (\<lambda>p. \<not> is_wall w (fst p) (snd p)
                          \<and> \<not> (fst p = el_x (objs w element_id) \<and> snd p = el_y (objs w element_id))
                          \<and> \<not> is_element w (fst p) (snd p)) neighbors
             @ [(ax, ay)]
             @ (if 9 \<le> ay \<and> bottom_row_priority then replicate 3 (ax, ay) else [])"
          have ne: "valid_moves \<noteq> []" by (simp add: valid_moves_def)
          have free: "\<forall>p\<in>set valid_moves.
                         p = (el_x (objs w adversary_id), el_y (objs w adversary_id)) \<or> free_cell w p"
            by (auto simp: valid_moves_def free_cell_def ax_def ay_def)
          let ?child = "\<lambda>b w'. minimax_value element_id remaining (depth + 1) max_depth True alpha
                                  b topology goal_x goal_y bottom_row_priority w'"
          have ch: "\<And>b w1. consistent w1 \<Longrightarrow> ids w1 = ids w \<Longrightarrow> \<exists>v. ?child b w1 = (Inr v, w1)"
            using "1.IH"(4)[OF nmem dep ng nmax Cons amem ax_def ay_def neighbors_def valid_moves_def ne]
              mem by simp
          have eq: "minimax_value element_id adversaries depth max_depth is_max alpha beta topology
                      goal_x goal_y bottom_row_priority w =
                    minimax_min_loop ?child adversary_id valid_moves PosInf alpha beta w"
            unfolding simps valid_moves_def neighbors_def ax_def ay_def
            using mem dep ng nmax Cons amem by (auto simp: Let_def)
          from minimax_min_loop_returns[where child = ?child, OF ch cons amem free] eq
          show ?thesis by simp
        qed
      qed
    qed
  qed
qed

lemma expectimax_evaluate_state_value:
  "\<exists>v. expectimax_evaluate_state w element goal_x goal_y interfering_elements False = Inr v"
  by (simp add: expectimax_evaluate_state_def Let_def)

lemma map_of_move_weights:
  assumes "distinct moves" "p \<in> set moves"
  shows "map_of (move_weights w other moves) p = Some (weight_of w other p)"
  using assms(2) by (simp add: move_weights_distinct[OF assms(1)] map_of_map_restrict)

lemma expectimax_max_loop_returns:
  assumes child: "\<And>w1. consistent w1 \<Longrightarrow> ids w1 = ids w \<Longrightarrow>
                    (\<exists>v. child w1 = (Inr v, w1)) \<or> (B \<and> fst (child w1) = Inl NameError)"
    and "consistent w" "element \<in> set (ids w)" "\<forall>p\<in>set moves. free_cell w p"
  shows "(\<exists>v. expectimax_max_loop child element moves value w = (Inr v, w))
         \<or> (B \<and> fst (expectimax_max_loop child element moves value w) = Inl NameError)"
  using assms(4)
proof (induction moves arbitrary: "value")
  case Nil
  then show ?case by simp
next
  case (Cons p moves)
  obtain nx ny where p: "p = (nx, ny)" by (cases p)
  let ?w1 = "simulate_move w element nx ny"
  have f: "free_cell w (nx, ny)" using Cons.prems p by simp
  have c1: "consistent ?w1" using simulate_move_consistent[OF assms(2,3) f] .
  have w3: "simulate_move ?w1 element (el_x (objs w element)) (el_y (objs w element)) = w"
    using simulate_move_undo[OF assms(2,3) f] .
  from child[OF c1] consider (ret) mv where "child ?w1 = (Inr mv, ?w1)"
    | (raise) w2 where "B" "child ?w1 = (Inl NameError, w2)"
    by (cases "child ?w1") auto
  then show ?case
  proof cases
    case ret
    with p w3
    have "expectimax_max_loop child element (p # moves) value w
          = expectimax_max_loop child element moves (ext_max value mv) w"
      by (simp add: Let_def)
    then show ?thesis using Cons.IH Cons.prems by simp
  next
    case raise
    with p show ?thesis by (simp add: Let_def)
  qed
qed

lemma expectimax_chance_loop_returns:
  assumes child: "\<And>w1. consistent w1 \<Longrightarrow> ids w1 = ids w \<Longrightarrow>
                    (\<exists>v. child w1 = (Inr v, w1)) \<or> (B \<and> fst (child w1) = Inl NameError)"
    and "consistent w" "other \<in> set (ids w)"
    and "\<forall>p\<in>set moves. (p = (el_x (objs w other), el_y (objs w other)) \<or> free_cell w p)
                         \<and> map_of weights p \<noteq> None"
  shows "(\<exists>v. expectimax_chance_loop child other weights total_weight moves total_value w
                = (Inr v, w))
         \<or> (B \<and> fst (expectimax_chance_loop child other weights total_weight moves total_value w)
                  = Inl NameError)"
  using assms(4)
proof (induction moves arbitrary: total_value)
  case Nil
  then show ?case by simp
next
  case (Cons p moves)
  obtain nx ny where p: "p = (nx, ny)" by (cases p)
  obtain weight where wt: "map_of weights (nx, ny) = Some weight" using Cons.prems p by auto
  have rest: "\<forall>p\<in>set moves. (p = (el_x (objs w other), el_y (objs w other)) \<or> free_cell w p)
                         \<and> map_of weights p \<noteq> None" using Cons.prems by simp
  show ?case
  proof (cases "weight / total_weight < 1 / 100")
    case True
    with p wt
    have "expectimax_chance_loop child other weights total_weight (p # moves) total_value w
          = expectimax_chance_loop child other weights total_weight moves total_value w"
      by (simp add: Let_def)
    then show ?thesis using Cons.IH[OF rest] by simp
  next
    case False
    let ?stay = "nx = el_x (objs w other) \<and> ny = el_y (objs w other)"
    let ?w1 = "if ?stay then w else simulate_move w other nx ny"
    have f: "\<not> ?stay \<Longrightarrow> free_cell w (nx, ny)" using Cons.prems p by auto
    have c1: "consistent ?w1" using simulate_move_consistent[OF assms(2,3) f] assms(2) by auto
    have i1: "ids ?w1 = ids w" by simp
    have w3: "(if ?stay then ?w1
               else simulate_move ?w1 other (el_x (objs w other)) (el_y (objs w other))) = w"
      using simulate_move_undo[OF assms(2,3) f] by auto
    from child[OF c1 i1] consider (ret) mv where "child ?w1 = (Inr mv, ?w1)"
      | (raise) w2 where "B" "child ?w1 = (Inl NameError, w2)"
      by (cases "child ?w1") auto
    then show ?thesis
    proof cases
      case ret
      with p wt False w3
      have "expectimax_chance_loop child other weights total_weight (p # moves) total_value w
            = expectimax_chance_loop child other weights total_weight moves
                (ext_plus total_value (ext_scale (weight / total_weight) mv)) w"
        by (simp add: Let_def)
      then show ?thesis using Cons.IH[OF rest] by simp
    next
      case raise
      with p wt False show ?thesis by (simp add: Let_def)
    qed
  qed
qed

lemma chance_moves_free:
  "\<forall>p\<in>set (chance_moves w element_id other topology).
      p = (el_x (objs w other), el_y (objs w other)) \<or> free_cell w p"
  by (auto simp: chance_moves_def free_cell_def)

lemma chance_moves_weighted:
  "\<forall>p\<in>set (chance_moves w element_id other topology).
      (p = (el_x (objs w other), el_y (objs w other)) \<or> free_cell w p)
      \<and> map_of (move_weights w other (chance_moves w element_id other topology)) p \<noteq> None"
  using map_of_move_weights[OF chance_moves_distinct, of _ w element_id other topology w other]
        chance_moves_free[of w element_id other topology]
  by auto

lemma expectimax_value_returns:
  "consistent w \<Longrightarrow> element_id \<in> set (ids w) \<Longrightarrow>
   (\<exists>v. expectimax_value element_id interfering_elements depth max_depth node_type topology
           goal_x goal_y is_bottom_row w = (Inr v, w))
   \<or> (is_bottom_row
       \<and> fst (expectimax_value element_id interfering_elements depth max_depth node_type topology
                goal_x goal_y is_bottom_row w) = Inl NameError)"
proof (induction element_id interfering_elements depth max_depth node_type topology goal_x goal_y
         is_bottom_row w rule: expectimax_value.induct)
  case (1 element_id interfering_elements depth max_depth node_type topology goal_x goal_y
          is_bottom_row w)
  note simps = expectimax_value.simps[of element_id interfering_elements depth max_depth
               node_type topology goal_x goal_y is_bottom_row w]
  note cons = "1.prems"(1)
  note mem = "1.prems"(2)
  have nmem: "\<not> element_id \<notin> set (ids w)" using mem by simp
  have leaf: "(\<exists>v. (case expectimax_evaluate_state w element_id goal_x goal_y
                            interfering_elements is_bottom_row of
                       Inl err \<Rightarrow> (Inl err, w) | Inr v \<Rightarrow> (Inr (Fin (g v)), w)) = (Inr v, w))
              \<or> (is_bottom_row
                  \<and> fst (case expectimax_evaluate_state w element_id goal_x goal_y
                                 interfering_elements is_bottom_row of
                            Inl err \<Rightarrow> (Inl err, w) | Inr v \<Rightarrow> (Inr (Fin (g v)), w))
                      = Inl NameError)" for g
  proof (cases is_bottom_row)
    case True
    then show ?thesis by (simp add: expectimax_evaluate_state_bottom_row)
  next
    case False
    with expectimax_evaluate_state_value[of w element_id goal_x goal_y interfering_elements]
    show ?thesis by auto
  qed
  show ?case
  proof (cases "max_depth \<le> depth")
    case True
    with mem leaf[of "\<lambda>v. v"] show ?thesis unfolding simps by simp
  next
    case dep: False
    show ?thesis
    proof (cases "el_x (objs w element_id) = goal_x \<and> el_y (objs w element_id) = goal_y")
      case True
      with mem dep show ?thesis unfolding simps by simp
    next
      case ng: False
      then have ng': "(el_x (objs w element_id) = goal_x \<and> el_y (objs w element_id) = goal_y)
                       = False" by simp
      show ?thesis
      proof (cases "node_type = MaxNode")
        case True
        define neighbors where "neighbors =
          get_neighbors w (el_x (objs w element_id)) (el_y (objs w element_id)) topology"
        define valid_moves where "valid_moves = filter (free_cell w) neighbors"
        define upward_moves where
          "upward_moves = filter (\<lambda>p. snd p < el_y (objs w element_id)) valid_moves"
        define valid_moves' where "valid_moves' =
          (if is_bottom_row \<and> valid_moves \<noteq> [] \<and> upward_moves \<noteq> []
           then upward_moves else valid_moves)"
        have free: "\<forall>p\<in>set valid_moves'. free_cell w p"
          by (auto simp: valid_moves'_def upward_moves_def valid_moves_def)
        let ?child = "\<lambda>w'. expectimax_value element_id interfering_elements (depth + 1) max_depth
                              (if interfering_elements \<noteq> [] then ChanceNode else MaxNode)
                              topology goal_x goal_y is_bottom_row w'"
        have eq: "expectimax_value element_id interfering_elements depth max_depth node_type
                    topology goal_x goal_y is_bottom_row w =
                  (if valid_moves' = []
                   then (case expectimax_evaluate_state w element_id goal_x goal_y
                                interfering_elements is_bottom_row of
                           Inl err \<Rightarrow> (Inl err, w) | Inr v \<Rightarrow> (Inr (Fin (v - 20)), w))
                   else expectimax_max_loop ?child element_id valid_moves' NegInf w)"
          unfolding simps valid_moves'_def upward_moves_def valid_moves_def neighbors_def
          using mem dep ng True by (auto simp: Let_def)
        show ?thesis
        proof (cases "valid_moves' = []")
          case e: True
          with eq leaf[of "\<lambda>v. v - 20"] show ?thesis by simp
        next
          case ne: False
          have ch: "\<And>w1. consistent w1 \<Longrightarrow> ids w1 = ids w \<Longrightarrow>
                      (\<exists>v. ?child w1 = (Inr v, w1))
                      \<or> (is_bottom_row \<and> fst (?child w1) = Inl NameError)"
            using "1.IH"(1)[OF nmem dep ng True neighbors_def valid_moves_def upward_moves_def
                               valid_moves'_def ne] mem by simp
          from expectimax_max_loop_returns[where child = ?child and B = is_bottom_row,
                 OF ch cons mem free] eq ne
          show ?thesis by simp
        qed
      next
        case nmax: False
        show ?thesis
        proof (cases interfering_elements)
          case Nil
          from "1.IH"(2)[OF nmem dep ng nmax Nil cons mem] mem dep nmax Nil
          show ?thesis unfolding simps by (simp add: ng')
        next
          case (Cons other_id remaining)
          let ?next = "\<lambda>w'. if remaining \<noteq> []
                              then expectimax_value element_id remaining depth max_depth ChanceNode
                                     topology goal_x goal_y is_bottom_row w'
                              else expectimax_value element_id [] (depth + 1) max_depth MaxNode
                                     topology goal_x goal_y is_bottom_row w'"
          show ?thesis
          proof (cases "other_id \<in> set (ids w)")
            case omem: False
            have n: "expectimax_value element_id interfering_elements depth max_depth node_type
                       topology goal_x goal_y is_bottom_row w = ?next w"
              unfolding simps using mem dep nmax Cons omem by (simp add: ng')
            show ?thesis
            proof (cases "remaining = []")
              case True
              with n "1.IH"(4)[OF nmem dep ng nmax Cons omem _ cons mem] show ?thesis by simp
            next
              case False
              with n "1.IH"(3)[OF nmem dep ng nmax Cons omem _ cons mem] show ?thesis by simp
            qed
          next
            case omem: True
            define valid_moves where "valid_moves = chance_moves w element_id other_id topology"
            have ne: "valid_moves \<noteq> []" by (simp add: valid_moves_def chance_moves_def)
            define weights where "weights = move_weights w other_id valid_moves"
            define total_weight where "total_weight = sum_list (map snd weights)"
            have nomem: "\<not> other_id \<notin> set (ids w)" using omem by simp
            have ch: "\<And>w1. consistent w1 \<Longrightarrow> ids w1 = ids w \<Longrightarrow>
                        (\<exists>v. ?next w1 = (Inr v, w1))
                        \<or> (is_bottom_row \<and> fst (?next w1) = Inl NameError)"
            proof (cases "remaining = []")
              case True
              then show "\<And>w1. consistent w1 \<Longrightarrow> ids w1 = ids w \<Longrightarrow>
                        (\<exists>v. ?next w1 = (Inr v, w1))
                        \<or> (is_bottom_row \<and> fst (?next w1) = Inl NameError)"
                using "1.IH"(8)[OF nmem dep ng nmax Cons nomem valid_moves_def ne weights_def
                                   total_weight_def] mem by simp
            next
              case False
              then show "\<And>w1. consistent w1 \<Longrightarrow> ids w1 = ids w \<Longrightarrow>
                        (\<exists>v. ?next w1 = (Inr v, w1))
                        \<or> (is_bottom_row \<and> fst (?next w1) = Inl NameError)"
                using "1.IH"(7)[OF nmem dep ng nmax Cons nomem valid_moves_def ne weights_def
                                   total_weight_def] mem by simp
            qed
            have eq: "expectimax_value element_id interfering_elements depth max_depth node_type
                        topology goal_x goal_y is_bottom_row w =
                      expectimax_chance_loop ?next other_id weights total_weight valid_moves
                        (Fin 0) w"
              unfolding simps total_weight_def weights_def
              using mem dep ng nmax Cons omem ne by (auto simp: Let_def valid_moves_def)
            have wm: "\<forall>p\<in>set valid_moves.
                        (p = (el_x (objs w other_id), el_y (objs w other_id)) \<or> free_cell w p)
                        \<and> map_of weights p \<noteq> None"
              using chance_moves_weighted[of w element_id other_id topology]
              by (simp add: valid_moves_def weights_def)
            from expectimax_chance_loop_returns[where child = ?next and B = is_bottom_row,
                   OF ch cons omem wm] eq
            show ?thesis by simp
          qed
        qed
      qed
    qed
  qed
qed

lemma minimax_root_loop_returns:
  assumes "consistent w" "element_id \<in> set (ids w)"
    and "original_x = el_x (objs w element_id)" "original_y = el_y (objs w element_id)"
    and "\<forall>p\<in>set moves. free_cell w p"
  shows "\<exists>r. minimax_root_loop element_id adversaries max_depth topology goal_x goal_y
           bottom_row_priority start_y original_x original_y moves best_value best_move alpha
           nodes_explored w = (Inr r, w)"
  using assms(5)
proof (induction moves arbitrary: best_value best_move alpha nodes_explored)
  case Nil
  then show ?case by simp
next
  case (Cons p moves)
  obtain nx ny where p: "p = (nx, ny)" by (cases p)
  let ?w1 = "simulate_move w element_id nx ny"
  have f: "free_cell w (nx, ny)" using Cons.prems p by simp
  have c1: "consistent ?w1" using simulate_move_consistent[OF assms(1,2) f] .
  have m1: "element_id \<in> set (ids ?w1)" using assms(2) by simp
  obtain mv where ch: "minimax_value element_id adversaries 1 max_depth False alpha PosInf
      topology goal_x goal_y bottom_row_priority ?w1 = (Inr mv, ?w1)"
    using minimax_value_returns[OF c1 m1] by blast
  have w3: "simulate_move ?w1 element_id original_x original_y = w"
    using simulate_move_undo[OF assms(1,2) f] assms(3,4) by simp
  from p ch w3
  have "\<exists>bv bm a n. minimax_root_loop element_id adversaries max_depth topology goal_x goal_y
           bottom_row_priority start_y original_x original_y (p # moves) best_value best_move alpha
           nodes_explored w
         = minimax_root_loop element_id adversaries max_depth topology goal_x goal_y
           bottom_row_priority start_y original_x original_y moves bv bm a n w"
    by (auto simp: Let_def)
  then show ?case using Cons.IH Cons.prems by auto
qed

lemma expectimax_root_loop_returns:
  assumes "consistent w" "element_id \<in> set (ids w)"
    and "original_x = el_x (objs w element_id)" "original_y = el_y (objs w element_id)"
    and "\<forall>p\<in>set moves. free_cell w p"
  shows "(\<exists>r. expectimax_root_loop element_id interfering_elements max_depth topology goal_x
                goal_y is_bottom_row start_y original_x original_y moves best_value best_move
                nodes_explored w = (Inr r, w))
         \<or> (is_bottom_row
             \<and> fst (expectimax_root_loop element_id interfering_elements max_depth topology goal_x
                      goal_y is_bottom_row start_y original_x original_y moves best_value
                      best_move nodes_explored w) = Inl NameError)"
  using assms(5)
proof (induction moves arbitrary: best_value best_move nodes_explored)
  case Nil
  then show ?case by simp
next
  case (Cons p moves)
  obtain nx ny where p: "p = (nx, ny)" by (cases p)
  let ?w1 = "simulate_move w element_id nx ny"
  let ?call = "expectimax_value element_id interfering_elements 1 max_depth MaxNode
      topology goal_x goal_y is_bottom_row ?w1"
  have f: "free_cell w (nx, ny)" using Cons.prems p by simp
  have c1: "consistent ?w1" using simulate_move_consistent[OF assms(1,2) f] .
  have m1: "element_id \<in> set (ids ?w1)" using assms(2) by simp
  have w3: "simulate_move ?w1 element_id original_x original_y = w"
    using simulate_move_undo[OF assms(1,2) f] assms(3,4) by simp
  from expectimax_value_returns[OF c1 m1, of interfering_elements 1 max_depth MaxNode topology
         goal_x goal_y is_bottom_row]
  consider (ret) mv where "?call = (Inr mv, ?w1)"
    | (raise) w2 where "is_bottom_row" "?call = (Inl NameError, w2)"
    by (cases ?call) auto
  then show ?case
  proof cases
    case ret
    with p w3
    have "\<exists>bv bm n. expectimax_root_loop element_id interfering_elements max_depth topology
             goal_x goal_y is_bottom_row start_y original_x original_y (p # moves) best_value
             best_move nodes_explored w
           = expectimax_root_loop element_id interfering_elements max_depth topology
             goal_x goal_y is_bottom_row start_y original_x original_y moves bv bm n w"
      by (auto simp: Let_def)
    then obtain bv bm n where e: "expectimax_root_loop element_id interfering_elements max_depth
             topology goal_x goal_y is_bottom_row start_y original_x original_y (p # moves)
             best_value best_move nodes_explored w
           = expectimax_root_loop element_id interfering_elements max_depth topology
             goal_x goal_y is_bottom_row start_y original_x original_y moves bv bm n w"
      by blast
    have rest: "\<forall>p\<in>set moves. free_cell w p" using Cons.prems by simp
    from Cons.IH[OF rest, of bv bm n] show ?thesis unfolding e .
  next
    case raise
    with p show ?thesis by (simp add: Let_def)
  qed
qed

lemma complete_path_frame:
  assumes "consistent w" "element_id \<in> set (ids w)"
  shows "snd (complete_path astar_pathfind w element_id start_x start_y goal_x goal_y topology
           bottom_row best_move nodes_explored) = w"
  using add_remove_element[OF assms]
  by (auto simp: complete_path_def Let_def split: option.splits prod.splits)

lemma complete_path_returns:
  assumes "consistent w" "element_id \<in> set (ids w)"
  shows "\<exists>r. complete_path astar_pathfind w element_id start_x start_y goal_x goal_y topology
           bottom_row best_move nodes_explored = (r, w)"
  using complete_path_frame[OF assms, of astar_pathfind start_x start_y goal_x goal_y topology
          bottom_row best_move nodes_explored]
  by (cases "complete_path astar_pathfind w element_id start_x start_y goal_x goal_y topology
           bottom_row best_move nodes_explored") simp

lemma minimax_pathfind_returns:
  assumes "consistent w"
  shows "\<exists>r. minimax_pathfind astar_pathfind rnd_unit rnd_pick w start_x start_y goal_x goal_y
           element_id topology max_depth = (Inr r, w)"
proof (cases "\<not> is_valid_position w start_x start_y \<or> \<not> is_valid_position w goal_x goal_y
              \<or> is_wall w start_x start_y \<or> is_wall w goal_x goal_y
              \<or> (start_x = goal_x \<and> start_y = goal_y) \<or> element_id \<notin> set (ids w)")
  case True
  then show ?thesis by (auto simp: minimax_pathfind_def)
next
  case False
  then have mem: "element_id \<in> set (ids w)" by simp
  from False have pre: "is_valid_position w start_x start_y" "is_valid_position w goal_x goal_y"
    "\<not> is_wall w start_x start_y" "\<not> is_wall w goal_x goal_y"
    "(start_x = goal_x \<and> start_y = goal_y) = False" by auto
  define max_depth' where
    "max_depth' = (if length (ids w) > 10 then max 1 (max_depth - 1) else max_depth)"
  define brp where "brp = (el_y (objs w element_id) \<ge> 9)"
  define adversaries where "adversaries =
    find_potential_adversaries w element_id start_x start_y goal_x goal_y brp"
  define valid_moves where
    "valid_moves = filter (free_cell w) (get_neighbors w start_x start_y topology)"
  define search where "search =
    minimax_best_first_move rnd_unit rnd_pick element_id adversaries max_depth' topology goal_x
      goal_y brp start_y (el_x (objs w element_id)) (el_y (objs w element_id)) valid_moves w"
  have eq: "minimax_pathfind astar_pathfind rnd_unit rnd_pick w start_x start_y goal_x goal_y
              element_id topology max_depth =
            (case minimax_fast_path rnd_pick w start_x start_y goal_y topology brp valid_moves of
               Some r \<Rightarrow> (Inr r, w)
             | None \<Rightarrow>
                 if valid_moves = [] then (Inr (Some [(start_x, start_y)], 1), w)
                 else (case search of
                         (Inl err, w') \<Rightarrow> (Inl err, w')
                       | (Inr (best_move, nodes_explored), w') \<Rightarrow>
                           (case complete_path astar_pathfind w' element_id start_x start_y goal_x
                                   goal_y topology brp best_move nodes_explored of
                              (r, w'') \<Rightarrow> (Inr r, w''))))"
    unfolding minimax_pathfind_def search_def valid_moves_def
      adversaries_def brp_def max_depth'_def
    by (simp add: pre mem Let_def split: option.split)
  show ?thesis
  proof (cases "minimax_fast_path rnd_pick w start_x start_y goal_y topology brp valid_moves")
    case (Some a)
    with eq show ?thesis by simp
  next
    case None
    show ?thesis
    proof (cases "valid_moves = []")
      case True
      with eq None show ?thesis by simp
    next
      case ne: False
      have "\<exists>bm. search = (Inr bm, w)"
      proof (cases "brp \<and> rnd_unit < 3 / 10 \<and> filter (\<lambda>p. snd p < start_y) valid_moves \<noteq> []")
        case True
        then show ?thesis by (auto simp: search_def minimax_best_first_move_def Let_def)
      next
        case False
        then have "search = minimax_root_loop element_id adversaries max_depth' topology goal_x
            goal_y brp start_y (el_x (objs w element_id)) (el_y (objs w element_id)) valid_moves
            NegInf None NegInf 0 w"
          by (auto simp: search_def minimax_best_first_move_def Let_def)
        moreover have "\<forall>p\<in>set valid_moves. free_cell w p" by (simp add: valid_moves_def)
        ultimately show ?thesis
          using minimax_root_loop_returns[OF assms mem refl refl, of valid_moves] by simp
      qed
      then obtain best_move nodes where s: "search = (Inr (best_move, nodes), w)" by auto
      obtain r where "complete_path astar_pathfind w element_id start_x start_y goal_x
                          goal_y topology brp best_move nodes = (r, w)"
        using complete_path_returns[OF assms mem] by blast
      with eq None ne s show ?thesis by simp
    qed
  qed
qed

lemma expectimax_pathfind_returns:
  assumes "consistent w"
  shows "(\<exists>r. expectimax_pathfind astar_pathfind near_line rnd_pick w start_x start_y goal_x
                goal_y element_id topology max_depth = (Inr r, w))
         \<or> (height w - 3 \<le> el_y (objs w element_id)
             \<and> fst (expectimax_pathfind astar_pathfind near_line rnd_pick w start_x start_y goal_x
                      goal_y element_id topology max_depth) = Inl NameError)"
proof (cases "\<not> is_valid_position w start_x start_y \<or> \<not> is_valid_position w goal_x goal_y
              \<or> is_wall w start_x start_y \<or> is_wall w goal_x goal_y
              \<or> (start_x = goal_x \<and> start_y = goal_y) \<or> element_id \<notin> set (ids w)")
  case True
  then show ?thesis by (auto simp: expectimax_pathfind_def)
next
  case False
  then have mem: "element_id \<in> set (ids w)" by simp
  from False have pre: "is_valid_position w start_x start_y" "is_valid_position w goal_x goal_y"
    "\<not> is_wall w start_x start_y" "\<not> is_wall w goal_x goal_y"
    "(start_x = goal_x \<and> start_y = goal_y) = False" by auto
  define max_depth' where
    "max_depth' = (if length (ids w) > 15 then 1 else if length (ids w) > 10 then 2 else max_depth)"
  define ibr where "ibr = (el_y (objs w element_id) \<ge> height w - 3)"
  define interfering where "interfering =
    find_interfering_elements near_line w element_id start_x start_y goal_x goal_y ibr"
  define valid_moves where
    "valid_moves = filter (free_cell w) (get_neighbors w start_x start_y topology)"
  define search where "search =
    expectimax_root_loop element_id interfering max_depth' topology goal_x goal_y ibr start_y
            (el_x (objs w element_id)) (el_y (objs w element_id)) valid_moves NegInf None 0 w"
  have eq: "expectimax_pathfind astar_pathfind near_line rnd_pick w start_x start_y goal_x goal_y
              element_id topology max_depth =
            (case expectimax_fast_path rnd_pick start_x start_y goal_x topology ibr valid_moves of
               Some r \<Rightarrow> (Inr r, w)
             | None \<Rightarrow>
                 if valid_moves = [] then (Inr (Some [(start_x, start_y)], 1), w)
                 else (case search of
                         (Inl err, w') \<Rightarrow> (Inl err, w')
                       | (Inr (best_move, nodes_explored), w') \<Rightarrow>
                           (case complete_path astar_pathfind w' element_id start_x start_y goal_x
                                   goal_y topology ibr best_move nodes_explored of
                              (r, w'') \<Rightarrow> (Inr r, w''))))"
    unfolding expectimax_pathfind_def search_def valid_moves_def
      interfering_def ibr_def max_depth'_def
    by (simp add: pre mem Let_def split: option.split)
  show ?thesis
  proof (cases "expectimax_fast_path rnd_pick start_x start_y goal_x topology ibr valid_moves")
    case (Some a)
    with eq show ?thesis by simp
  next
    case None
    show ?thesis
    proof (cases "valid_moves = []")
      case True
      with eq None show ?thesis by simp
    next
      case ne: False
      have "\<forall>p\<in>set valid_moves. free_cell w p" by (simp add: valid_moves_def)
      from expectimax_root_loop_returns[OF assms mem refl refl this, of interfering max_depth'
             topology goal_x goal_y ibr start_y NegInf None 0]
      consider (ret) best_move nodes where "search = (Inr (best_move, nodes), w)"
        | (raise) w2 where "ibr" "search = (Inl NameError, w2)"
        unfolding search_def[symmetric] by (cases search) auto
      then show ?thesis
      proof cases
        case ret
        obtain r where "complete_path astar_pathfind w element_id start_x start_y goal_x
                          goal_y topology ibr best_move nodes = (r, w)"
          using complete_path_returns[OF assms mem] by blast
        with eq None ne ret show ?thesis by simp
      next
        case raise
        with eq None ne show ?thesis by (simp add: ibr_def)
      qed
    qed
  qed
qed

text \<open>
  Claim C1 speaks of every call. The simulation lifts an element from the grid before it
  asks for a path (\<open>simulation.py\<close>, lines 174 to 185): the element keeps its position
  and stays in the dictionary, but its cell is empty. In \<open>arena\<close> with element 1 lifted
  from (5, 8), both pathfinders and both recursive searches return for element 1 with
  the cell (5, 8) occupied again: restoring a simulated move writes the element into
  the grid. In \<open>capped\<close>, which satisfies I1, \<open>expectimax_pathfind\<close> for element 0 in the
  bottom row raises \<open>NameError\<close> in the middle of the search and leaves element 0 at
  (4, 9) instead of (5, 10).
\<close>

theorem search_changes_lifted_world:
  "cells (remove_element arena 1) (5, 8) = Empty
   \<and> fst (minimax_pathfind no_path (1 / 2) 0 (remove_element arena 1) 5 8 8 8 1 VonNeumann 2)
       = Inr (Some [(5, 8), (6, 8)], 4)
   \<and> cells (snd (minimax_pathfind no_path (1 / 2) 0 (remove_element arena 1) 5 8 8 8 1
                   VonNeumann 2)) (5, 8) = Occupied 1
   \<and> fst (expectimax_pathfind no_path unrounded_line_test 0 (remove_element arena 1) 5 8 8 8 1
            VonNeumann 2) = Inr (Some [(5, 8), (6, 8)], 4)
   \<and> cells (snd (expectimax_pathfind no_path unrounded_line_test 0 (remove_element arena 1)
                   5 8 8 8 1 VonNeumann 2)) (5, 8) = Occupied 1
   \<and> fst (minimax_value 1 [] 0 2 True NegInf PosInf VonNeumann 8 8 False
            (remove_element arena 1)) = Inr (Fin 0)
   \<and> cells (snd (minimax_value 1 [] 0 2 True NegInf PosInf VonNeumann 8 8 False
                   (remove_element arena 1))) (5, 8) = Occupied 1
   \<and> fst (expectimax_value 1 [] 0 2 MaxNode VonNeumann 8 8 False (remove_element arena 1))
       = Inr (Fin 10)
   \<and> cells (snd (expectimax_value 1 [] 0 2 MaxNode VonNeumann 8 8 False
                   (remove_element arena 1))) (5, 8) = Occupied 1
   \<and> consistent capped
   \<and> fst (expectimax_pathfind no_path unrounded_line_test 0 capped 5 10 5 2 0 VonNeumann 2)
       = Inl NameError
   \<and> (el_x (objs capped 0), el_y (objs capped 0)) = (5, 10)
   \<and> (el_x (objs (snd (expectimax_pathfind no_path unrounded_line_test 0 capped 5 10 5 2 0
                         VonNeumann 2)) 0),
       el_y (objs (snd (expectimax_pathfind no_path unrounded_line_test 0 capped 5 10 5 2 0
                         VonNeumann 2)) 0)) = (4, 9)"
proof -
  have "cells (remove_element arena 1) (5, 8) = Empty
   \<and> fst (minimax_pathfind no_path (1 / 2) 0 (remove_element arena 1) 5 8 8 8 1 VonNeumann 2)
       = Inr (Some [(5, 8), (6, 8)], 4)
   \<and> cells (snd (minimax_pathfind no_path (1 / 2) 0 (remove_element arena 1) 5 8 8 8 1
                   VonNeumann 2)) (5, 8) = Occupied 1"
    by (simp add: minimax_eval world_simps grid_simps ext_simps Let_def cong: let_weak_cong)
  moreover have "fst (expectimax_pathfind no_path unrounded_line_test 0 (remove_element arena 1)
                       5 8 8 8 1 VonNeumann 2) = Inr (Some [(5, 8), (6, 8)], 4)
   \<and> cells (snd (expectimax_pathfind no_path unrounded_line_test 0 (remove_element arena 1)
                   5 8 8 8 1 VonNeumann 2)) (5, 8) = Occupied 1"
    by (simp add: expectimax_eval world_simps grid_simps ext_simps Let_def cong: let_weak_cong)
  moreover have "fst (minimax_value 1 [] 0 2 True NegInf PosInf VonNeumann 8 8 False
                  (remove_element arena 1)) = Inr (Fin 0)
   \<and> cells (snd (minimax_value 1 [] 0 2 True NegInf PosInf VonNeumann 8 8 False
                   (remove_element arena 1))) (5, 8) = Occupied 1"
    by (simp add: minimax_eval world_simps grid_simps ext_simps Let_def cong: let_weak_cong)
  moreover have "fst (expectimax_value 1 [] 0 2 MaxNode VonNeumann 8 8 False
                  (remove_element arena 1)) = Inr (Fin 10)
   \<and> cells (snd (expectimax_value 1 [] 0 2 MaxNode VonNeumann 8 8 False
                   (remove_element arena 1))) (5, 8) = Occupied 1"
    by (simp add: expectimax_eval world_simps grid_simps ext_simps Let_def cong: let_weak_cong)
  moreover have "consistent capped
   \<and> fst (expectimax_pathfind no_path unrounded_line_test 0 capped 5 10 5 2 0 VonNeumann 2)
       = Inl NameError
   \<and> (el_x (objs capped 0), el_y (objs capped 0)) = (5, 10)
   \<and> (el_x (objs (snd (expectimax_pathfind no_path unrounded_line_test 0 capped 5 10 5 2 0
                         VonNeumann 2)) 0),
       el_y (objs (snd (expectimax_pathfind no_path unrounded_line_test 0 capped 5 10 5 2 0
                         VonNeumann 2)) 0)) = (4, 9)"
    by (simp add: consistent_def expectimax_eval world_simps grid_simps ext_simps Let_def
          cong: let_weak_cong)
  ultimately show ?thesis by blast
qed

text \<open>
  Claim C1, amended. In a world that satisfies invariant I1 (every registered element
  carries its key and stands in the grid on the cell of its stored position), every
  call of \<open>minimax_pathfind\<close>, and every call of \<open>minimax_value\<close> for a registered
  element, returns a value and leaves the grid occupancy and every element exactly as
  they were before the call. The recursive branches are such calls in the world after a
  simulated move, which satisfies I1 again, and the loops undo the move after each of
  them, also before a pruning cut. The same holds for every call of \<open>expectimax_value\<close>
  with \<open>is_bottom_row\<close> false and of \<open>expectimax_pathfind\<close> for an element above the
  bottom 3 rows. With \<open>is_bottom_row\<close> true, or for an element within the bottom 3 rows,
  such a call either returns a value and leaves the world exactly as it was, or raises
  \<open>NameError\<close>.
\<close>

theorem search_restores_world:
  assumes "consistent w"
  shows "(element_id \<in> set (ids w) \<longrightarrow>
            (\<exists>v. minimax_value element_id adversaries depth max_depth is_max alpha beta topology
                    goal_x goal_y bottom_row w = (Inr v, w)))
       \<and> (element_id \<in> set (ids w) \<longrightarrow>
            (\<exists>v. expectimax_value element_id adversaries depth max_depth node_type topology
                    goal_x goal_y False w = (Inr v, w)))
       \<and> (element_id \<in> set (ids w) \<longrightarrow>
            (\<exists>v. expectimax_value element_id adversaries depth max_depth node_type topology
                    goal_x goal_y True w = (Inr v, w))
            \<or> fst (expectimax_value element_id adversaries depth max_depth node_type topology
                      goal_x goal_y True w) = Inl NameError)
       \<and> (\<exists>r. minimax_pathfind astar_pathfind rnd_unit rnd_pick w start_x start_y goal_x goal_y
                 element_id topology max_depth = (Inr r, w))
       \<and> (el_y (objs w element_id) < height w - 3 \<longrightarrow>
            (\<exists>r. expectimax_pathfind astar_pathfind near_line rnd_pick w start_x start_y goal_x
                    goal_y element_id topology max_depth = (Inr r, w)))
       \<and> ((\<exists>r. expectimax_pathfind astar_pathfind near_line rnd_pick w start_x start_y goal_x
                   goal_y element_id topology max_depth = (Inr r, w))
           \<or> fst (expectimax_pathfind astar_pathfind near_line rnd_pick w start_x start_y goal_x
                     goal_y element_id topology max_depth) = Inl NameError)"
proof (intro conjI impI)
  assume "element_id \<in> set (ids w)"
  then show "\<exists>v. minimax_value element_id adversaries depth max_depth is_max alpha beta topology
                    goal_x goal_y bottom_row w = (Inr v, w)"
    by (rule minimax_value_returns[OF assms])
next
  assume "element_id \<in> set (ids w)"
  from expectimax_value_returns[OF assms this, of adversaries depth max_depth node_type
         topology goal_x goal_y False]
  show "\<exists>v. expectimax_value element_id adversaries depth max_depth node_type topology
               goal_x goal_y False w = (Inr v, w)" by simp
next
  assume "element_id \<in> set (ids w)"
  from expectimax_value_returns[OF assms this, of adversaries depth max_depth node_type
         topology goal_x goal_y True]
  show "(\<exists>v. expectimax_value element_id adversaries depth max_depth node_type topology
                goal_x goal_y True w = (Inr v, w))
        \<or> fst (expectimax_value element_id adversaries depth max_depth node_type topology
                  goal_x goal_y True w) = Inl NameError" by simp
next
  show "\<exists>r. minimax_pathfind astar_pathfind rnd_unit rnd_pick w start_x start_y goal_x goal_y
              element_id topology max_depth = (Inr r, w)"
    by (rule minimax_pathfind_returns[OF assms])
next
  assume "el_y (objs w element_id) < height w - 3"
  with expectimax_pathfind_returns[OF assms, of astar_pathfind near_line rnd_pick start_x
         start_y goal_x goal_y element_id topology max_depth]
  show "\<exists>r. expectimax_pathfind astar_pathfind near_line rnd_pick w start_x start_y goal_x
               goal_y element_id topology max_depth = (Inr r, w)" by simp
next
  from expectimax_pathfind_returns[OF assms, of astar_pathfind near_line rnd_pick start_x
         start_y goal_x goal_y element_id topology max_depth]
  show "(\<exists>r. expectimax_pathfind astar_pathfind near_line rnd_pick w start_x start_y goal_x
                goal_y element_id topology max_depth = (Inr r, w))
        \<or> fst (expectimax_pathfind astar_pathfind near_line rnd_pick w start_x start_y goal_x
                  goal_y element_id topology max_depth) = Inl NameError" by blast
qed

text \<open>
  In \<open>arena\<close>, which satisfies I1: a minimax and an expectimax search of depth 3 for
  element 0 with element 1 as adversary, and both pathfinders for element 1 from (5, 8)
  to (8, 8), which search over four first moves. Element 1 stands above the bottom 3
  rows. With \<open>is_bottom_row\<close> true the expectimax search for element 0 raises at its first
  leaf.
\<close>

theorem search_restores_world_witness:
  "consistent arena \<and> 0 \<in> set (ids arena) \<and> el_y (objs arena 1) < height arena - 3
   \<and> minimax_value 0 [1] 1 3 True NegInf PosInf VonNeumann 5 2 False arena
       = (Inr (Fin (- 70)), arena)
   \<and> expectimax_value 0 [1] 1 3 MaxNode VonNeumann 5 2 False arena
       = (Inr (Fin (- 60)), arena)
   \<and> ((\<exists>v. expectimax_value 0 [1] 1 3 MaxNode VonNeumann 5 2 True arena = (Inr v, arena))
       \<or> fst (expectimax_value 0 [1] 1 3 MaxNode VonNeumann 5 2 True arena) = Inl NameError)
   \<and> minimax_pathfind no_path (1 / 2) 0 arena 5 8 8 8 1 VonNeumann 2
       = (Inr (Some [(5, 8), (6, 8)], 4), arena)
   \<and> expectimax_pathfind no_path unrounded_line_test 0 arena 5 8 8 8 1 VonNeumann 2
       = (Inr (Some [(5, 8), (6, 8)], 4), arena)"
proof -
  have c: "consistent arena" by (simp add: consistent_def world_simps)
  have m: "0 \<in> set (ids arena)" "el_y (objs arena 1) < height arena - 3"
    by (simp_all add: world_simps)
  have v1: "fst (minimax_value 0 [1] 1 3 True NegInf PosInf VonNeumann 5 2 False arena)
              = Inr (Fin (- 70))"
    by (simp add: minimax_eval world_simps grid_simps ext_simps Let_def cong: let_weak_cong)
  have v2: "fst (expectimax_value 0 [1] 1 3 MaxNode VonNeumann 5 2 False arena)
              = Inr (Fin (- 60))"
    by (simp add: expectimax_eval world_simps grid_simps ext_simps Let_def cong: let_weak_cong)
  have v3: "fst (minimax_pathfind no_path (1 / 2) 0 arena 5 8 8 8 1 VonNeumann 2)
              = Inr (Some [(5, 8), (6, 8)], 4)"
    by (simp add: minimax_eval world_simps grid_simps ext_simps Let_def cong: let_weak_cong)
  have v4: "fst (expectimax_pathfind no_path unrounded_line_test 0 arena 5 8 8 8 1 VonNeumann 2)
              = Inr (Some [(5, 8), (6, 8)], 4)"
    by (simp add: expectimax_eval world_simps grid_simps ext_simps Let_def cong: let_weak_cong)
  note t0 = search_restores_world[OF c, where element_id = 0 and adversaries = "[1]"
      and depth = 1 and max_depth = 3 and is_max = True and alpha = NegInf and beta = PosInf
      and node_type = MaxNode and topology = VonNeumann and goal_x = 5 and goal_y = 2
      and bottom_row = False]
  note t1 = search_restores_world[OF c, where element_id = 1 and astar_pathfind = no_path
      and near_line = unrounded_line_test and rnd_unit = "1 / 2" and rnd_pick = 0
      and start_x = 5 and start_y = 8 and goal_x = 8 and goal_y = 8 and topology = VonNeumann
      and max_depth = 2]
  from t0[THEN conjunct1] m(1)
  obtain a1 where "minimax_value 0 [1] 1 3 True NegInf PosInf VonNeumann 5 2 False arena
                     = (Inr a1, arena)" by blast
  with v1
  have r1: "minimax_value 0 [1] 1 3 True NegInf PosInf VonNeumann 5 2 False arena
              = (Inr (Fin (- 70)), arena)" by simp
  from t0[THEN conjunct2, THEN conjunct1] m(1)
  obtain a2 where "expectimax_value 0 [1] 1 3 MaxNode VonNeumann 5 2 False arena
                     = (Inr a2, arena)" by blast
  with v2
  have r2: "expectimax_value 0 [1] 1 3 MaxNode VonNeumann 5 2 False arena
              = (Inr (Fin (- 60)), arena)" by simp
  from t0[THEN conjunct2, THEN conjunct2, THEN conjunct1] m(1)
  have r3: "(\<exists>v. expectimax_value 0 [1] 1 3 MaxNode VonNeumann 5 2 True arena = (Inr v, arena))
       \<or> fst (expectimax_value 0 [1] 1 3 MaxNode VonNeumann 5 2 True arena) = Inl NameError"
    by blast
  from t1[THEN conjunct2, THEN conjunct2, THEN conjunct2, THEN conjunct1]
  obtain a4 where "minimax_pathfind no_path (1 / 2) 0 arena 5 8 8 8 1 VonNeumann 2
                     = (Inr a4, arena)" by blast
  with v3
  have r4: "minimax_pathfind no_path (1 / 2) 0 arena 5 8 8 8 1 VonNeumann 2
              = (Inr (Some [(5, 8), (6, 8)], 4), arena)" by simp
  from t1[THEN conjunct2, THEN conjunct2, THEN conjunct2, THEN conjunct2, THEN conjunct1] m(2)
  obtain a5 where "expectimax_pathfind no_path unrounded_line_test 0 arena 5 8 8 8 1
                     VonNeumann 2 = (Inr a5, arena)" by blast
  with v4
  have r5: "expectimax_pathfind no_path unrounded_line_test 0 arena 5 8 8 8 1 VonNeumann 2
              = (Inr (Some [(5, 8), (6, 8)], 4), arena)" by simp
  show ?thesis using c m r1 r2 r3 r4 r5 by blast
qed

end
